theory Spec2Isabelle
  imports Complex_Main "HOL-Library.Multiset"
begin

section \<open>Pile capacity calculator: embedding of \<open>src/app.py\<close>\<close>

text \<open>
  The engine of the application is the pair of functions \<open>calculate_3d_embedment_eb\<close>
  (lines 148-214) and \<open>calculate_capacity\<close> (lines 217-289). Python floats are
  idealised as the reals, \<open>np.pi\<close> as \<open>pi\<close>; the only non-finite float the code
  builds itself, \<open>float("inf")\<close>, is the extra value \<open>PInf\<close>. Infinite and
  not-a-number inputs are no inputs of the model.

  Two operations of \<open>calculate_capacity\<close> raise \<open>OverflowError\<close> when their
  result leaves the float range, and both are branches of the model: the power
  \<open>(diameter / 2) ** 2\<close> of line 223 on Python floats, and on line 247 the conversion
  \<open>int(np.ceil(length / increment))\<close> of a quotient that has become infinite. Every
  other operation that overflows gives \<open>inf\<close> or \<open>nan\<close> without raising, and so
  does line 223 on a numpy scalar; the reals have neither, so what is proved about
  returned numbers is proved of the exact values.
\<close>

subsection \<open>The float range\<close>

text \<open>
  A result rounds to infinity when its magnitude is at least \<open>2 ^ 1024 - 2 ^ 970\<close>,
  halfway between the largest float and \<open>2 ^ 1024\<close>.
\<close>

definition float_limit :: real where
  "float_limit = 2 ^ 1024 - 2 ^ 970"

definition overflows :: "real \<Rightarrow> bool" where
  "overflows x = (\<bar>x\<bar> \<ge> float_limit)"

subsection \<open>Depths that may be infinite\<close>

datatype xreal = Fin real | PInf

text \<open>\<open>x < b\<close> with a real on the left and a possibly infinite bound on the right.\<close>

fun xless :: "real \<Rightarrow> xreal \<Rightarrow> bool" where
  "xless x (Fin b) = (x < b)"
| "xless x PInf = True"

text \<open>\<open>x >= b\<close>, same sides.\<close>

fun xgeq :: "real \<Rightarrow> xreal \<Rightarrow> bool" where
  "xgeq x (Fin b) = (x \<ge> b)"
| "xgeq x PInf = False"

text \<open>\<open>b - t\<close> for a possibly infinite \<open>b\<close>: \<open>inf - t = inf\<close>.\<close>

fun xminus :: "xreal \<Rightarrow> real \<Rightarrow> xreal" where
  "xminus (Fin b) t = Fin (b - t)"
| "xminus PInf t = PInf"

text \<open>\<open>e >= x\<close> with the possibly infinite value on the left.\<close>

fun xreaches :: "xreal \<Rightarrow> real \<Rightarrow> bool" where
  "xreaches (Fin e) x = (e \<ge> x)"
| "xreaches PInf x = True"

subsection \<open>Geological units\<close>

text \<open>
  A unit is a Python dict with the keys \<open>name\<close>, \<open>top_depth\<close>, \<open>skin_friction\<close>,
  \<open>end_bearing\<close>. The key \<open>bottom_depth\<close> is absent in what the caller supplies
  (\<open>None\<close>) and is stored by \<open>calculate_capacity\<close> (lines 239-243).
\<close>

record geo_unit =
  name :: string
  top_depth :: real
  skin_friction :: real
  end_bearing :: real
  bottom_depth :: "xreal option"

datatype py_error = KeyError | OverflowError

subsection \<open>\<open>calculate_3d_embedment_eb\<close> (lines 148-214)\<close>

text \<open>
  Lines 173-176: the bottom of the unit at index \<open>i\<close> is the top of the unit at
  \<open>i + 1\<close>, or infinity for the last one. The argument is the list after index \<open>i\<close>.
\<close>

fun unit_bottom :: "geo_unit list \<Rightarrow> xreal" where
  "unit_bottom [] = PInf"
| "unit_bottom (nxt # rest) = Fin (top_depth nxt)"

text \<open>
  The \<open>for\<close> loop of lines 170-212 over the units still to visit, with the running
  \<open>previous_EB\<close> as an argument. \<open>break\<close> (line 180) and falling off the end of
  the list both reach line 214, which returns \<open>previous_EB\<close>. The two branches that
  assign the same value (lines 191-194, 200-203) and the inner test of line 206 are kept
  as the source has them.
\<close>

fun embedment_loop :: "real \<Rightarrow> real \<Rightarrow> geo_unit list \<Rightarrow> real \<Rightarrow> real" where
  "embedment_loop toe_depth embed_length [] previous_EB = previous_EB"
| "embedment_loop toe_depth embed_length (u # rest) previous_EB =
     (if toe_depth < top_depth u then previous_EB
      else if toe_depth \<ge> top_depth u \<and> xless toe_depth (unit_bottom rest) then
        (if toe_depth - top_depth u < embed_length then
           (if end_bearing u > previous_EB \<and> end_bearing u > 0 then previous_EB else 0)
         else
           (if end_bearing u > previous_EB \<and> end_bearing u > 0 then end_bearing u
            else end_bearing u))
      else if xgeq toe_depth (unit_bottom rest) then
        embedment_loop toe_depth embed_length rest
          (if xreaches (xminus (unit_bottom rest) (top_depth u)) embed_length then
             (if end_bearing u > previous_EB \<and> end_bearing u > 0 then end_bearing u
              else end_bearing u)
           else
             (if end_bearing u > previous_EB \<and> end_bearing u > 0 then
                (if xreaches (xminus (unit_bottom rest) (top_depth u)) embed_length
                 then end_bearing u else previous_EB)
              else end_bearing u))
      else embedment_loop toe_depth embed_length rest previous_EB)"

definition calculate_3d_embedment_eb :: "real \<Rightarrow> real \<Rightarrow> geo_unit list \<Rightarrow> real" where
  "calculate_3d_embedment_eb toe_depth diameter sorted_units =
     embedment_loop toe_depth (3 * diameter) sorted_units 0"

subsection \<open>The caller's objects and the local dummy\<close>

text \<open>
  \<open>calculate_capacity\<close> receives a list of references to dicts owned by the caller
  and writes into those dicts. The caller's objects are a list indexed by address; the
  list \<open>units\<close> is a list of addresses, which may name the same object twice. Every
  reference of a Python list points to a live object, so the addresses of \<open>units\<close>
  are below the length of the store. The only object the function allocates is the dict
  literal of lines 231-236; it is held beside the caller's objects.
\<close>

type_synonym addr = nat

datatype ref = Caller addr | Dummy

type_synonym store = "geo_unit list \<times> geo_unit"

fun deref :: "store \<Rightarrow> ref \<Rightarrow> geo_unit" where
  "deref (h, d) (Caller a) = h ! a"
| "deref (h, d) Dummy = d"

text \<open>\<open>r["bottom_depth"] = b\<close>: the dict is updated in place.\<close>

fun set_bottom_depth :: "store \<Rightarrow> ref \<Rightarrow> xreal \<Rightarrow> store" where
  "set_bottom_depth (h, d) (Caller a) b = (h[a := (h ! a)\<lparr>bottom_depth := Some b\<rparr>], d)"
| "set_bottom_depth (h, d) Dummy b = (h, d\<lparr>bottom_depth := Some b\<rparr>)"

definition dummy_unit :: geo_unit where
  "dummy_unit = \<lparr>name = ''Dummy'', top_depth = 0, skin_friction = 0, end_bearing = 0,
                 bottom_depth = None\<rparr>"

subsection \<open>\<open>calculate_capacity\<close>: sorting and bottoms (lines 226-243)\<close>

text \<open>
  Lines 227-237. \<open>sorted\<close> builds a new list of the same references, stable in the key;
  \<open>sort_key\<close> is the stable insertion sort, and a stable sort has one result. The dummy
  is inserted in front when the list is not empty and the top of its first unit is
  greater than 0.
\<close>

definition sort_units :: "geo_unit list \<Rightarrow> addr list \<Rightarrow> ref list" where
  "sort_units h units =
     (let sorted_units = sort_key (\<lambda>a. top_depth (h ! a)) units
      in if sorted_units \<noteq> [] \<and> top_depth (h ! hd sorted_units) > 0
         then Dummy # map Caller sorted_units
         else map Caller sorted_units)"

text \<open>
  Lines 239-243, over the references from index \<open>i\<close> on: each dict gets the key
  \<open>bottom_depth\<close>, the top of the next one or infinity.
\<close>

fun assign_bottoms :: "store \<Rightarrow> ref list \<Rightarrow> store" where
  "assign_bottoms s [] = s"
| "assign_bottoms s [r] = set_bottom_depth s r PInf"
| "assign_bottoms s (r # nxt # rest) =
     assign_bottoms (set_bottom_depth s r (Fin (top_depth (deref s nxt)))) (nxt # rest)"

subsection \<open>\<open>calculate_capacity\<close>: skin friction (lines 245-263)\<close>

text \<open>
  The inner loop of lines 256-259, which is also the loop of lines 270-273: the first
  unit with \<open>top_depth <= x < bottom_depth\<close>. Python evaluates the chained comparison
  left to right and reads \<open>unit["bottom_depth"]\<close> only when the first half holds; a
  dict without that key raises \<open>KeyError\<close> there.
\<close>

fun find_unit :: "geo_unit list \<Rightarrow> real \<Rightarrow> py_error + geo_unit option" where
  "find_unit [] x = Inr None"
| "find_unit (u # rest) x =
     (if top_depth u \<le> x then
        (case bottom_depth u of
           None \<Rightarrow> Inl KeyError
         | Some b \<Rightarrow> if xless x b then Inr (Some u) else find_unit rest x)
      else find_unit rest x)"

definition increment :: real where
  "increment = 1 / 2"

definition seg_top :: "nat \<Rightarrow> real" where
  "seg_top seg = real seg * increment"

definition seg_bot :: "real \<Rightarrow> nat \<Rightarrow> real" where
  "seg_bot pile_length seg = min ((real seg + 1) * increment) pile_length"

definition seg_mid :: "real \<Rightarrow> nat \<Rightarrow> real" where
  "seg_mid pile_length seg = (seg_top seg + seg_bot pile_length seg) / 2"

definition seg_len :: "real \<Rightarrow> nat \<Rightarrow> real" where
  "seg_len pile_length seg = seg_bot pile_length seg - seg_top seg"

text \<open>The loop of lines 249-263 over the segment numbers still to visit.\<close>

fun friction_loop ::
  "geo_unit list \<Rightarrow> real \<Rightarrow> real \<Rightarrow> nat list \<Rightarrow> real \<Rightarrow> py_error + real" where
  "friction_loop sorted_units perimeter pile_length [] friction = Inr friction"
| "friction_loop sorted_units perimeter pile_length (seg # segs) friction =
     (case find_unit sorted_units (seg_mid pile_length seg) of
        Inl e \<Rightarrow> Inl e
      | Inr None \<Rightarrow> friction_loop sorted_units perimeter pile_length segs friction
      | Inr (Some current_unit) \<Rightarrow>
          friction_loop sorted_units perimeter pile_length segs
            (friction + skin_friction current_unit * perimeter * seg_len pile_length seg))"

text \<open>
  Lines 246-248: \<open>segments = int(np.ceil(length / increment))\<close>. When the quotient
  overflows it is infinite, of either sign, and \<open>int\<close> raises \<open>OverflowError\<close>.
  Otherwise the loop runs over \<open>range(segments)\<close>; the range of a negative number is
  empty.
\<close>

definition total_friction :: "geo_unit list \<Rightarrow> real \<Rightarrow> real \<Rightarrow> py_error + real" where
  "total_friction sorted_units diameter pile_length =
     (if overflows (pile_length / increment) then Inl OverflowError
      else friction_loop sorted_units (pi * diameter) pile_length
             [0..<nat \<lceil>pile_length / increment\<rceil>] 0)"

subsection \<open>\<open>calculate_capacity\<close>: end bearing (lines 265-286)\<close>

definition end_bearing_force ::
  "geo_unit list \<Rightarrow> real \<Rightarrow> real \<Rightarrow> bool \<Rightarrow> bool \<Rightarrow> py_error + real" where
  "end_bearing_force sorted_units diameter pile_length three_d_embed skin_friction_only =
     (if \<not> skin_friction_only then
        (case find_unit sorted_units pile_length of
           Inl e \<Rightarrow> Inl e
         | Inr found \<Rightarrow>
            (case (if found = None \<and> sorted_units \<noteq> [] then Some (last sorted_units) else found) of
               None \<Rightarrow> Inr 0
             | Some toe_unit \<Rightarrow>
                 Inr ((if three_d_embed
                       then calculate_3d_embedment_eb pile_length diameter sorted_units
                       else end_bearing toe_unit) * (pi * (diameter / 2) ^ 2))))
      else Inr 0)"

subsection \<open>\<open>calculate_capacity\<close> (lines 217-289)\<close>

text \<open>
  The dicts as they are once lines 226-243 have run; the rest of the function only
  reads them.
\<close>

definition final_store :: "geo_unit list \<Rightarrow> addr list \<Rightarrow> store" where
  "final_store h units = assign_bottoms (h, dummy_unit) (sort_units h units)"

definition profile :: "geo_unit list \<Rightarrow> addr list \<Rightarrow> geo_unit list" where
  "profile h units = map (deref (final_store h units)) (sort_units h units)"

text \<open>
  The result is the returned number or the exception, together with the caller's objects
  as the call leaves them. Line 223 runs first: when its power overflows, the call raises
  before it has touched a dict.
\<close>

definition calculate_capacity ::
  "geo_unit list \<Rightarrow> real \<Rightarrow> real \<Rightarrow> addr list \<Rightarrow> real \<Rightarrow> bool \<Rightarrow> bool
     \<Rightarrow> (py_error + real) \<times> geo_unit list" where
  "calculate_capacity h diameter pile_length units reduction_factor three_d_embed
       skin_friction_only =
     (if overflows ((diameter / 2) ^ 2) then (Inl OverflowError, h)
      else
        (case total_friction (profile h units) diameter pile_length of
           Inl e \<Rightarrow> (Inl e, fst (final_store h units))
         | Inr friction \<Rightarrow>
            (case end_bearing_force (profile h units) diameter pile_length three_d_embed
                    skin_friction_only of
               Inl e \<Rightarrow> (Inl e, fst (final_store h units))
             | Inr bearing \<Rightarrow>
                 (Inr ((friction + bearing) * reduction_factor),
                  fst (final_store h units)))))"

subsection \<open>The specification's vocabulary\<close>

text \<open>
  The references of \<open>units\<close> point to live objects.
\<close>

definition live :: "geo_unit list \<Rightarrow> addr list \<Rightarrow> bool" where
  "live h units = (\<forall>a\<in>set units. a < length h)"

text \<open>
  The specification's rule for the running \<open>previous_EB\<close> over the units the toe has
  passed entirely, in its own words: a unit at least \<open>3 * diameter\<close> thick always
  hands on its end bearing; a thinner one only when its end bearing is at most
  \<open>previous_EB\<close> or is 0. \<open>below\<close> is the top of the unit that follows the passed ones.
\<close>

fun spec_previous_EB :: "real \<Rightarrow> real \<Rightarrow> geo_unit list \<Rightarrow> real \<Rightarrow> real" where
  "spec_previous_EB diameter previous_EB [] below = previous_EB"
| "spec_previous_EB diameter previous_EB (u # us) below =
     spec_previous_EB diameter
       (if (case us of [] \<Rightarrow> below | v # _ \<Rightarrow> top_depth v) - top_depth u \<ge> 3 * diameter
        then end_bearing u
        else if end_bearing u \<le> previous_EB \<or> end_bearing u = 0 then end_bearing u
        else previous_EB)
       us below"

text \<open>
  The specification's \<open>layerAt\<close>: the layer whose half-open interval
  \<open>[top_depth, bottom_depth)\<close> contains the depth, the deepest layer when no interval
  does. An empty profile has no layer.
\<close>

definition in_interval :: "geo_unit \<Rightarrow> real \<Rightarrow> bool" where
  "in_interval u depth =
     (case bottom_depth u of None \<Rightarrow> False | Some b \<Rightarrow> top_depth u \<le> depth \<and> xless depth b)"

definition layerAt :: "geo_unit list \<Rightarrow> real \<Rightarrow> geo_unit option" where
  "layerAt p depth =
     (case find (\<lambda>u. in_interval u depth) p of
        Some u \<Rightarrow> Some u
      | None \<Rightarrow> if p = [] then None else Some (last p))"

text \<open>The skin friction and end bearing a lookup contributes; no layer contributes 0.\<close>

fun friction_of :: "geo_unit option \<Rightarrow> real" where
  "friction_of None = 0"
| "friction_of (Some u) = skin_friction u"

fun bearing_of :: "geo_unit option \<Rightarrow> real" where
  "bearing_of None = 0"
| "bearing_of (Some u) = end_bearing u"

text \<open>
  The invariants of a normalized profile (specification, section 3): every bottom is the
  next top and the last bottom is infinite; the tops ascend; the profile starts at depth
  0 or above it, since a profile that would start deeper gets the synthetic layer.
\<close>

fun chained :: "geo_unit list \<Rightarrow> bool" where
  "chained [] = True"
| "chained [u] = (bottom_depth u = Some PInf)"
| "chained (u # v # rest) = (bottom_depth u = Some (Fin (top_depth v)) \<and> chained (v # rest))"

definition normalized :: "geo_unit list \<Rightarrow> bool" where
  "normalized p = (sorted (map top_depth p) \<and> chained p \<and> (p \<noteq> [] \<longrightarrow> top_depth (hd p) \<le> 0))"

text \<open>The four fields a caller supplies.\<close>

definition core :: "geo_unit \<Rightarrow> string \<times> real \<times> real \<times> real" where
  "core u = (name u, top_depth u, skin_friction u, end_bearing u)"

text \<open>A reference that points to an object of the store.\<close>

fun live_ref :: "store \<Rightarrow> ref \<Rightarrow> bool" where
  "live_ref (h, d) (Caller a) = (a < length h)"
| "live_ref (h, d) Dummy = True"

text \<open>The units of a list with the bottoms the next tops give them.\<close>

fun with_bottoms :: "geo_unit list \<Rightarrow> geo_unit list" where
  "with_bottoms [] = []"
| "with_bottoms [u] = [u\<lparr>bottom_depth := Some PInf\<rparr>]"
| "with_bottoms (u # v # rest) =
     u\<lparr>bottom_depth := Some (Fin (top_depth v))\<rparr> # with_bottoms (v # rest)"

text \<open>
  The synthetic layer stands in front exactly when the input is not empty and its
  shallowest unit, hence every unit, has a top depth greater than 0.
\<close>

definition pad :: "geo_unit list \<Rightarrow> addr list \<Rightarrow> ref list" where
  "pad h units =
     (if units \<noteq> [] \<and> (\<forall>a\<in>set units. 0 < top_depth (h ! a)) then [Dummy] else [])"

text \<open>
  What one segment adds to the skin friction: the friction of the first unit whose
  interval holds the segment's midpoint, on the segment's shaft area.
\<close>

definition seg_term :: "geo_unit list \<Rightarrow> real \<Rightarrow> real \<Rightarrow> nat \<Rightarrow> real" where
  "seg_term p perimeter pile_length seg =
     friction_of (find (\<lambda>u. in_interval u (seg_mid pile_length seg)) p) * perimeter
       * seg_len pile_length seg"




text \<open>
  Two stores agree when they have the same addresses, every live object has the same
  four supplied fields in both, and the objects of \<open>R\<close> are equal in both.
\<close>

definition agree :: "store \<Rightarrow> store \<Rightarrow> ref set \<Rightarrow> bool" where
  "agree s1 s2 R =
     (length (fst s1) = length (fst s2)
      \<and> (\<forall>r. live_ref s1 r \<longrightarrow>
             core (deref s1 r) = core (deref s2 r) \<and> (r \<in> R \<longrightarrow> deref s1 r = deref s2 r)))"

section \<open>The 3D-embedment resolver\<close>

lemma embedment_loop_pass:
  assumes "top_depth u \<le> top_depth nxt" and "top_depth nxt \<le> toe_depth"
    and "0 \<le> end_bearing u"
  shows "embedment_loop toe_depth (3 * diameter) (u # nxt # rest) previous_EB =
           embedment_loop toe_depth (3 * diameter) (nxt # rest)
             (if top_depth nxt - top_depth u \<ge> 3 * diameter then end_bearing u
              else if end_bearing u \<le> previous_EB \<or> end_bearing u = 0 then end_bearing u
              else previous_EB)"
  using assms
  by (auto simp del: embedment_loop.simps(2) simp add: embedment_loop.simps(2)[of _ _ u])

lemma embedment_loop_passed:
  assumes "sorted (map top_depth (passed @ [nxt]))" and "top_depth nxt \<le> toe_depth"
    and "\<forall>u\<in>set passed. 0 \<le> end_bearing u"
  shows "embedment_loop toe_depth (3 * diameter) (passed @ nxt # rest) previous_EB =
           embedment_loop toe_depth (3 * diameter) (nxt # rest)
             (spec_previous_EB diameter previous_EB passed (top_depth nxt))"
  using assms
proof (induction passed arbitrary: previous_EB)
  case Nil
  then show ?case by simp
next
  case (Cons u us)
  show ?case
  proof (cases us)
    case Nil
    with Cons.prems show ?thesis
      using embedment_loop_pass[of u nxt toe_depth diameter rest previous_EB] by simp
  next
    case (Cons v vs)
    have tv: "top_depth v \<le> toe_depth"
      using Cons.prems(1,2) Cons by auto
    have uv: "top_depth u \<le> top_depth v"
      using Cons.prems(1) Cons by auto
    have step:
      "embedment_loop toe_depth (3 * diameter) (u # v # (vs @ nxt # rest)) previous_EB =
         embedment_loop toe_depth (3 * diameter) (v # (vs @ nxt # rest))
           (if top_depth v - top_depth u \<ge> 3 * diameter then end_bearing u
            else if end_bearing u \<le> previous_EB \<or> end_bearing u = 0 then end_bearing u
            else previous_EB)"
      using embedment_loop_pass[OF uv tv] Cons.prems(3) by simp
    have ih: "\<And>p. embedment_loop toe_depth (3 * diameter) (us @ nxt # rest) p =
           embedment_loop toe_depth (3 * diameter) (nxt # rest)
             (spec_previous_EB diameter p us (top_depth nxt))"
      using Cons.IH Cons.prems by simp
    show ?thesis
      using step ih Cons by simp
  qed
qed

lemma embedment_loop_within:
  assumes "top_depth u \<le> toe_depth" and "xless toe_depth (unit_bottom rest)"
  shows "embedment_loop toe_depth (3 * diameter) (u # rest) previous_EB =
           (if toe_depth - top_depth u < 3 * diameter
            then (if end_bearing u > previous_EB \<and> end_bearing u > 0 then previous_EB else 0)
            else end_bearing u)"
  using assms by simp

text \<open>
  The example of the specification's section 8: unit A on \<open>[0, 5)\<close> with end bearing
  0 above unit B with end bearing 400, diameter 1. The effective end bearing is 0 for a
  toe in \<open>[5, 8)\<close> and 400 from 8 on.
\<close>

lemma embedment_two_units:
  assumes "5 \<le> toe_depth"
  shows "calculate_3d_embedment_eb toe_depth 1
           [\<lparr>name = ''A'', top_depth = 0, skin_friction = 0, end_bearing = 0,
             bottom_depth = None\<rparr>,
            \<lparr>name = ''B'', top_depth = 5, skin_friction = 0, end_bearing = 400,
             bottom_depth = None\<rparr>]
         = (if toe_depth < 8 then 0 else 400)"
  using assms by (simp add: calculate_3d_embedment_eb_def)

text \<open>
  Claim C1. In 3D-embedment mode, when the loop is at a unit that holds the toe
  (\<open>top_depth \<le> toe_depth < bottom\<close>, the bottom being the top of the next unit or
  infinity), with any running \<open>previous_EB\<close>: if \<open>toe_depth - top_depth < 3 * diameter\<close>
  the resolver returns \<open>previous_EB\<close> when the unit's end bearing is greater than
  \<open>previous_EB\<close> and greater than 0, and 0 otherwise; if the embedment is at least
  \<open>3 * diameter\<close> it returns the unit's own end bearing. The units after it play no
  part: the value is returned at once. For a whole profile, sorted by top and with
  non-negative end bearings above that unit, this is the result of
  \<open>calculate_3d_embedment_eb\<close>, with \<open>previous_EB\<close> the value the specification's
  rule carries from 0 over the units above.
\<close>

theorem embedment_toe_within_unit:
  assumes "top_depth u \<le> toe_depth" and "xless toe_depth (unit_bottom rest)"
  shows "embedment_loop toe_depth (3 * diameter) (u # rest) previous_EB =
           (if toe_depth - top_depth u < 3 * diameter
            then (if end_bearing u > previous_EB \<and> end_bearing u > 0 then previous_EB else 0)
            else end_bearing u)
       \<and> (sorted (map top_depth (passed @ [u])) \<and> (\<forall>v\<in>set passed. 0 \<le> end_bearing v) \<longrightarrow>
            calculate_3d_embedment_eb toe_depth diameter (passed @ u # rest) =
              (if toe_depth - top_depth u < 3 * diameter
               then (if end_bearing u > spec_previous_EB diameter 0 passed (top_depth u)
                        \<and> end_bearing u > 0
                     then spec_previous_EB diameter 0 passed (top_depth u) else 0)
               else end_bearing u))"
proof -
  have step: "\<And>p. embedment_loop toe_depth (3 * diameter) (u # rest) p =
           (if toe_depth - top_depth u < 3 * diameter
            then (if end_bearing u > p \<and> end_bearing u > 0 then p else 0)
            else end_bearing u)"
    using embedment_loop_within[OF assms] by blast
  have whole: "sorted (map top_depth (passed @ [u])) \<and> (\<forall>v\<in>set passed. 0 \<le> end_bearing v) \<longrightarrow>
            calculate_3d_embedment_eb toe_depth diameter (passed @ u # rest) =
              (if toe_depth - top_depth u < 3 * diameter
               then (if end_bearing u > spec_previous_EB diameter 0 passed (top_depth u)
                        \<and> end_bearing u > 0
                     then spec_previous_EB diameter 0 passed (top_depth u) else 0)
               else end_bearing u)"
  proof
    assume h: "sorted (map top_depth (passed @ [u])) \<and> (\<forall>v\<in>set passed. 0 \<le> end_bearing v)"
    have "calculate_3d_embedment_eb toe_depth diameter (passed @ u # rest)
            = embedment_loop toe_depth (3 * diameter) (u # rest)
                (spec_previous_EB diameter 0 passed (top_depth u))"
      unfolding calculate_3d_embedment_eb_def
      using h assms(1) by (intro embedment_loop_passed) simp_all
    then show "calculate_3d_embedment_eb toe_depth diameter (passed @ u # rest) =
              (if toe_depth - top_depth u < 3 * diameter
               then (if end_bearing u > spec_previous_EB diameter 0 passed (top_depth u)
                        \<and> end_bearing u > 0
                     then spec_previous_EB diameter 0 passed (top_depth u) else 0)
               else end_bearing u)"
      by (simp only: step)
  qed
  show ?thesis using step whole by blast
qed

theorem embedment_toe_within_unit_witness:
  "embedment_loop 6 (3 * 1)
     [\<lparr>name = ''B'', top_depth = 5, skin_friction = 0, end_bearing = 400,
       bottom_depth = None\<rparr>] 150 = 150
   \<and> calculate_3d_embedment_eb 6 1
       [\<lparr>name = ''A'', top_depth = 0, skin_friction = 0, end_bearing = 300,
         bottom_depth = None\<rparr>,
        \<lparr>name = ''B'', top_depth = 5, skin_friction = 0, end_bearing = 400,
         bottom_depth = None\<rparr>] = 300
   \<and> spec_previous_EB 1 0
       [\<lparr>name = ''A'', top_depth = 0, skin_friction = 0, end_bearing = 300,
         bottom_depth = None\<rparr>] 5 = 300"
  using embedment_toe_within_unit
    [of "\<lparr>name = ''B'', top_depth = 5, skin_friction = 0, end_bearing = 400,
          bottom_depth = None\<rparr>" 6 "[]" 1 150
        "[\<lparr>name = ''A'', top_depth = 0, skin_friction = 0, end_bearing = 300,
           bottom_depth = None\<rparr>]"]
  by simp

text \<open>
  Claim C2. In 3D-embedment mode, over the units the toe has passed entirely (units of a
  profile sorted by top, with non-negative end bearings as the data model has them, the
  toe at or below the top of the unit that follows them), the loop carries on from that
  next unit with \<open>previous_EB\<close> updated unit by unit as the specification says: to the
  unit's end bearing when the unit is at least \<open>3 * diameter\<close> thick; when it is
  thinner, to its end bearing only if that is at most \<open>previous_EB\<close> or is 0, and
  unchanged otherwise. When no unit is left the final \<open>previous_EB\<close> is returned.
\<close>

theorem embedment_passed_units:
  assumes "sorted (map top_depth (passed @ [nxt]))" and "top_depth nxt \<le> toe_depth"
    and "\<forall>u\<in>set passed. 0 \<le> end_bearing u"
  shows "embedment_loop toe_depth (3 * diameter) (passed @ nxt # rest) previous_EB =
           embedment_loop toe_depth (3 * diameter) (nxt # rest)
             (spec_previous_EB diameter previous_EB passed (top_depth nxt))
         \<and> embedment_loop toe_depth (3 * diameter) [] previous_EB = previous_EB"
  using embedment_loop_passed[OF assms] by simp

theorem embedment_passed_units_witness:
  "sorted (map top_depth
     [\<lparr>name = ''A'', top_depth = 0, skin_friction = 0, end_bearing = 300, bottom_depth = None\<rparr>,
      \<lparr>name = ''T'', top_depth = 5, skin_friction = 0, end_bearing = 900, bottom_depth = None\<rparr>,
      \<lparr>name = ''B'', top_depth = 6, skin_friction = 0, end_bearing = 400, bottom_depth = None\<rparr>])
   \<and> embedment_loop 7 (3 * 1)
       [\<lparr>name = ''A'', top_depth = 0, skin_friction = 0, end_bearing = 300, bottom_depth = None\<rparr>,
        \<lparr>name = ''T'', top_depth = 5, skin_friction = 0, end_bearing = 900, bottom_depth = None\<rparr>,
        \<lparr>name = ''B'', top_depth = 6, skin_friction = 0, end_bearing = 400, bottom_depth = None\<rparr>]
       0 = 300
   \<and> spec_previous_EB 1 0
       [\<lparr>name = ''A'', top_depth = 0, skin_friction = 0, end_bearing = 300, bottom_depth = None\<rparr>,
        \<lparr>name = ''T'', top_depth = 5, skin_friction = 0, end_bearing = 900, bottom_depth = None\<rparr>]
       6 = 300"
  using embedment_passed_units
    [of "[\<lparr>name = ''A'', top_depth = 0, skin_friction = 0, end_bearing = 300,
           bottom_depth = None\<rparr>,
          \<lparr>name = ''T'', top_depth = 5, skin_friction = 0, end_bearing = 900,
           bottom_depth = None\<rparr>]"
        "\<lparr>name = ''B'', top_depth = 6, skin_friction = 0, end_bearing = 400,
          bottom_depth = None\<rparr>" 7 1 "[]" 0]
  by simp

section \<open>The store: what lines 239-243 write\<close>

lemma length_set_bottom_depth [simp]:
  "length (fst (set_bottom_depth s r b)) = length (fst s)"
  by (cases s; cases r) simp_all

lemma live_ref_set_bottom_depth [simp]:
  "live_ref (set_bottom_depth s r b) r' = live_ref s r'"
  by (cases s; cases r; cases r') simp_all

lemma deref_set_bottom_depth_other:
  "r' \<noteq> r \<Longrightarrow> deref (set_bottom_depth s r b) r' = deref s r'"
  by (cases s; cases r; cases r') auto

lemma deref_set_bottom_depth_same:
  "live_ref s r \<Longrightarrow> deref (set_bottom_depth s r b) r = (deref s r)\<lparr>bottom_depth := Some b\<rparr>"
  by (cases s; cases r) auto

lemma core_set_bottom_depth [simp]:
  "core (deref (set_bottom_depth s r b) r') = core (deref s r')"
proof (cases s; cases r; cases r')
  fix h d a a'
  assume "s = (h, d)" "r = Caller a" "r' = Caller a'"
  then show ?thesis
    by (cases "a < length h"; cases "a' = a") (simp_all add: core_def list_update_beyond)
qed (simp_all add: core_def)

lemma top_depth_core: "core u = core v \<Longrightarrow> top_depth u = top_depth v"
  by (simp add: core_def)

lemma length_assign_bottoms [simp]:
  "length (fst (assign_bottoms s rs)) = length (fst s)"
  by (induction s rs rule: assign_bottoms.induct) simp_all

lemma live_ref_assign_bottoms [simp]:
  "live_ref (assign_bottoms s rs) r = live_ref s r"
  by (induction s rs rule: assign_bottoms.induct) simp_all

lemma core_assign_bottoms [simp]:
  "core (deref (assign_bottoms s rs) r) = core (deref s r)"
  by (induction s rs rule: assign_bottoms.induct) simp_all

lemma deref_assign_bottoms_other:
  "r \<notin> set rs \<Longrightarrow> deref (assign_bottoms s rs) r = deref s r"
  by (induction s rs rule: assign_bottoms.induct) (auto simp: deref_set_bottom_depth_other)

lemma bottom_set_bottom_depth_keeps:
  "bottom_depth (deref s r') \<noteq> None \<Longrightarrow> bottom_depth (deref (set_bottom_depth s r b) r') \<noteq> None"
proof (cases s; cases r; cases r')
  fix h d a a'
  assume "s = (h, d)" "r = Caller a" "r' = Caller a'" "bottom_depth (deref s r') \<noteq> None"
  then show ?thesis
    by (cases "a < length h"; cases "a' = a") (simp_all add: list_update_beyond)
qed auto

lemma bottom_assign_bottoms_keeps:
  "bottom_depth (deref s r) \<noteq> None \<Longrightarrow> bottom_depth (deref (assign_bottoms s rs) r) \<noteq> None"
  by (induction s rs rule: assign_bottoms.induct) (simp_all add: bottom_set_bottom_depth_keeps)

lemma bottom_assign_bottoms_set:
  "r \<in> set rs \<Longrightarrow> live_ref s r \<Longrightarrow> bottom_depth (deref (assign_bottoms s rs) r) \<noteq> None"
proof (induction s rs rule: assign_bottoms.induct)
  case (1 s)
  then show ?case by simp
next
  case (2 s r0)
  then show ?case by (simp add: deref_set_bottom_depth_same)
next
  case (3 s r0 nxt rest)
  show ?case
  proof (cases "r = r0")
    case True
    then have "bottom_depth (deref (set_bottom_depth s r0 (Fin (top_depth (deref s nxt)))) r) \<noteq> None"
      using 3 by (simp add: deref_set_bottom_depth_same)
    then show ?thesis
      using bottom_assign_bottoms_keeps by simp
  next
    case False
    then show ?thesis using 3 by simp
  qed
qed

lemma map_deref_assign_bottoms:
  "distinct rs \<Longrightarrow> \<forall>r\<in>set rs. live_ref s r \<Longrightarrow>
     map (deref (assign_bottoms s rs)) rs = with_bottoms (map (deref s) rs)"
proof (induction s rs rule: assign_bottoms.induct)
  case (1 s)
  then show ?case by simp
next
  case (2 s r)
  then show ?case by (simp add: deref_set_bottom_depth_same)
next
  case (3 s r nxt rest)
  let ?s' = "set_bottom_depth s r (Fin (top_depth (deref s nxt)))"
  have notin: "r \<notin> set (nxt # rest)" using 3(2) by simp
  have same: "map (deref ?s') (nxt # rest) = map (deref s) (nxt # rest)"
  proof (intro map_cong refl)
    fix x assume "x \<in> set (nxt # rest)"
    with notin have "x \<noteq> r" by auto
    then show "deref ?s' x = deref s x" by (rule deref_set_bottom_depth_other)
  qed
  have ih: "map (deref (assign_bottoms ?s' (nxt # rest))) (nxt # rest)
              = with_bottoms (map (deref ?s') (nxt # rest))"
    using 3 by simp
  have hd: "deref (assign_bottoms ?s' (nxt # rest)) r
              = (deref s r)\<lparr>bottom_depth := Some (Fin (top_depth (deref s nxt)))\<rparr>"
    using notin 3(3) by (simp add: deref_assign_bottoms_other deref_set_bottom_depth_same)
  let ?F = "assign_bottoms ?s' (nxt # rest)"
  have "map (deref (assign_bottoms s (r # nxt # rest))) (r # nxt # rest)
          = deref ?F r # map (deref ?F) (nxt # rest)"
    by simp
  also have "\<dots> = (deref s r)\<lparr>bottom_depth := Some (Fin (top_depth (deref s nxt)))\<rparr>
                       # with_bottoms (map (deref s) (nxt # rest))"
    by (simp only: ih hd same)
  also have "\<dots> = with_bottoms (map (deref s) (r # nxt # rest))"
    by simp
  finally show ?case .
qed

section \<open>Normalization: sorting, synthetic layer, bottoms\<close>

lemma chained_with_bottoms: "chained (with_bottoms us)"
proof (induction us rule: with_bottoms.induct)
  case (3 u v rest)
  then show ?case by (cases rest) simp_all
qed simp_all

lemma core_with_bottoms: "map core (with_bottoms us) = map core us"
  by (induction us rule: with_bottoms.induct) (simp_all add: core_def)

lemma top_depth_with_bottoms: "map top_depth (with_bottoms us) = map top_depth us"
  by (induction us rule: with_bottoms.induct) simp_all

lemma length_with_bottoms [simp]: "length (with_bottoms us) = length us"
  by (induction us rule: with_bottoms.induct) simp_all

lemma chained_nth:
  "chained p \<Longrightarrow> Suc i < length p \<Longrightarrow> bottom_depth (p ! i) = Some (Fin (top_depth (p ! Suc i)))"
proof (induction p arbitrary: i rule: chained.induct)
  case (3 u v rest)
  then show ?case by (cases i) simp_all
qed simp_all

lemma chained_last: "chained p \<Longrightarrow> p \<noteq> [] \<Longrightarrow> bottom_depth (last p) = Some PInf"
  by (induction p rule: chained.induct) simp_all

lemma chained_bottoms: "chained p \<Longrightarrow> u \<in> set p \<Longrightarrow> bottom_depth u \<noteq> None"
  by (induction p rule: chained.induct) auto

text \<open>The first unit of the sorted list is a shallowest one.\<close>

lemma hd_sort_key_pos:
  fixes f :: "'a \<Rightarrow> real"
  assumes "xs \<noteq> []"
  shows "(0 < f (hd (sort_key f xs))) = (\<forall>a\<in>set xs. 0 < f a)"
proof -
  let ?s = "sort_key f xs"
  have ne: "?s \<noteq> []" using assms by (metis length_sort list.size(3) length_0_conv)
  then obtain y ys where s: "?s = y # ys" by (cases ?s) auto
  have srt: "sorted (map f (y # ys))" using sorted_sort_key[of f xs] s by simp
  have st: "set xs = set (y # ys)" using set_sort[of f xs] s by simp
  have "\<forall>a\<in>set (y # ys). f y \<le> f a" using srt by auto
  then show ?thesis using s st by (auto intro: less_le_trans)
qed

lemma sort_units_eq:
  "sort_units h units = pad h units @ map Caller (sort_key (\<lambda>a. top_depth (h ! a)) units)"
proof (cases "units = []")
  case True
  then show ?thesis by (simp add: sort_units_def pad_def)
next
  case False
  then have ne: "sort_key (\<lambda>a. top_depth (h ! a)) units \<noteq> []"
    by (metis length_sort list.size(3) length_0_conv)
  show ?thesis
    using False ne hd_sort_key_pos[OF False, of "\<lambda>a. top_depth (h ! a)"]
    by (simp add: sort_units_def pad_def Let_def)
qed

lemma set_sort_units: "set (sort_units h units) \<subseteq> insert Dummy (Caller ` set units)"
  by (auto simp: sort_units_eq pad_def)

lemma Caller_sort_units: "Caller a \<in> set (sort_units h units) \<longleftrightarrow> a \<in> set units"
  by (auto simp: sort_units_eq pad_def)

lemma live_sort_units:
  "live h units \<Longrightarrow> r \<in> set (sort_units h units) \<Longrightarrow> live_ref (h, d) r"
  using set_sort_units[of h units] by (auto simp: live_def)

lemma distinct_sort_units: "distinct units \<Longrightarrow> distinct (sort_units h units)"
  by (auto simp: sort_units_eq pad_def distinct_map inj_on_def)

lemma sorted_tops_sort_units:
  "sorted (map (\<lambda>r. top_depth (deref (h, dummy_unit) r)) (sort_units h units))"
proof -
  let ?f = "\<lambda>a. top_depth (h ! a)"
  have m: "map (\<lambda>r. top_depth (deref (h, dummy_unit) r)) (map Caller (sort_key ?f units))
            = map ?f (sort_key ?f units)"
    by simp
  have s: "sorted (map ?f (sort_key ?f units))" by simp
  show ?thesis
  proof (cases "pad h units = []")
    case True
    then show ?thesis using s m by (simp add: sort_units_eq comp_def)
  next
    case False
    then have p: "pad h units = [Dummy]" and pos: "\<forall>a\<in>set units. 0 < top_depth (h ! a)"
      by (auto simp: pad_def split: if_splits)
    have "\<forall>x\<in>set (map ?f (sort_key ?f units)). 0 \<le> x"
      using pos by (auto intro: less_imp_le)
    then show ?thesis
      using s m p by (simp add: sort_units_eq dummy_unit_def comp_def)
  qed
qed

lemma hd_top_sort_units:
  assumes "sort_units h units \<noteq> []"
  shows "top_depth (deref (h, dummy_unit) (hd (sort_units h units))) \<le> 0"
proof (cases "units \<noteq> [] \<and> (\<forall>a\<in>set units. 0 < top_depth (h ! a))")
  case True
  then show ?thesis by (simp add: sort_units_eq pad_def dummy_unit_def)
next
  case False
  have ne: "units \<noteq> []" using assms by (auto simp: sort_units_eq pad_def)
  then have sne: "sort_key (\<lambda>a. top_depth (h ! a)) units \<noteq> []"
    by (metis length_sort list.size(3) length_0_conv)
  have "\<not> 0 < top_depth (h ! hd (sort_key (\<lambda>a. top_depth (h ! a)) units))"
    using False ne hd_sort_key_pos[OF ne, of "\<lambda>a. top_depth (h ! a)"] by simp
  then show ?thesis
    using False ne sne by (simp add: sort_units_eq pad_def hd_map dummy_unit_def)
qed

lemma profile_cores:
  "map core (profile h units) = map (\<lambda>r. core (deref (h, dummy_unit) r)) (sort_units h units)"
  by (simp add: profile_def final_store_def)

lemma profile_tops:
  "map top_depth (profile h units)
     = map (\<lambda>r. top_depth (deref (h, dummy_unit) r)) (sort_units h units)"
proof -
  have "map top_depth (profile h units) = map (fst \<circ> snd) (map core (profile h units))"
    by (simp add: core_def comp_def)
  also have "\<dots> = map (\<lambda>r. top_depth (deref (h, dummy_unit) r)) (sort_units h units)"
    unfolding profile_cores by (simp add: core_def comp_def)
  finally show ?thesis .
qed

lemma sorted_profile: "sorted (map top_depth (profile h units))"
  by (simp only: profile_tops sorted_tops_sort_units)

lemma profile_with_bottoms:
  assumes "live h units" and "distinct units"
  shows "profile h units = with_bottoms (map (deref (h, dummy_unit)) (sort_units h units))"
  unfolding profile_def final_store_def
  using assms by (intro map_deref_assign_bottoms distinct_sort_units ballI live_sort_units)

lemma profile_bottoms:
  assumes "live h units" and "u \<in> set (profile h units)"
  shows "bottom_depth u \<noteq> None"
proof -
  from assms(2) obtain r where r: "r \<in> set (sort_units h units)"
    and u: "u = deref (final_store h units) r"
    by (auto simp: profile_def)
  show ?thesis
    unfolding u final_store_def
    using r live_sort_units[OF assms(1) r] by (rule bottom_assign_bottoms_set)
qed

lemma profile_normalized:
  assumes "live h units" and "distinct units"
  shows "normalized (profile h units)"
proof -
  have c: "chained (profile h units)"
    using profile_with_bottoms[OF assms] chained_with_bottoms by simp
  have "profile h units \<noteq> [] \<Longrightarrow> top_depth (hd (profile h units)) \<le> 0"
  proof -
    assume ne: "profile h units \<noteq> []"
    then have sne: "sort_units h units \<noteq> []" by (simp add: profile_def)
    have "top_depth (hd (profile h units)) = hd (map top_depth (profile h units))"
      using ne by (simp add: hd_map)
    also have "\<dots> = top_depth (deref (h, dummy_unit) (hd (sort_units h units)))"
      unfolding profile_tops using sne by (simp add: hd_map)
    finally show ?thesis using hd_top_sort_units[OF sne] by simp
  qed
  then show ?thesis
    using c sorted_profile by (simp add: normalized_def)
qed

text \<open>
  Claim C5. For every input layer list (live references, no dict listed twice), after
  lines 226-243: the references are those of the input sorted ascending by top depth,
  units of equal top depth keeping their input order (a stable sort: the same multiset,
  and for every key the units with that key in input order); the synthetic layer, with
  top depth, skin friction and end bearing 0, stands in front exactly when the input is
  not empty and its shallowest top depth is greater than 0; the profile is these units
  with their four fields as supplied; its tops ascend; and every unit's
  \<open>bottom_depth\<close> is the next unit's top depth, that of the last being infinite.
\<close>

theorem normalization_invariants:
  assumes "live h units" and "distinct units"
  shows "(\<exists>srt. sort_units h units
               = (if units \<noteq> [] \<and> (\<forall>a\<in>set units. 0 < top_depth (h ! a))
                  then [Dummy] else []) @ map Caller srt
            \<and> mset srt = mset units
            \<and> sorted (map (\<lambda>a. top_depth (h ! a)) srt)
            \<and> (\<forall>k. filter (\<lambda>a. top_depth (h ! a) = k) srt
                     = filter (\<lambda>a. top_depth (h ! a) = k) units))
       \<and> map core (profile h units)
           = map (\<lambda>r. core (deref (h, dummy_unit) r)) (sort_units h units)
       \<and> core dummy_unit = (''Dummy'', 0, 0, 0)
       \<and> sorted (map top_depth (profile h units))
       \<and> (\<forall>i. Suc i < length (profile h units) \<longrightarrow>
              bottom_depth (profile h units ! i)
                = Some (Fin (top_depth (profile h units ! Suc i))))
       \<and> (profile h units \<noteq> [] \<longrightarrow> bottom_depth (last (profile h units)) = Some PInf)"
proof -
  let ?f = "\<lambda>a. top_depth (h ! a)"
  have a: "sort_units h units
             = (if units \<noteq> [] \<and> (\<forall>a\<in>set units. 0 < top_depth (h ! a))
                then [Dummy] else []) @ map Caller (sort_key ?f units)
           \<and> mset (sort_key ?f units) = mset units
           \<and> sorted (map ?f (sort_key ?f units))
           \<and> (\<forall>k. filter (\<lambda>a. ?f a = k) (sort_key ?f units) = filter (\<lambda>a. ?f a = k) units)"
    using sort_units_eq[of h units] by (simp add: pad_def sort_key_stable)
  have n: "normalized (profile h units)"
    using assms by (rule profile_normalized)
  then have c: "chained (profile h units)" by (simp add: normalized_def)
  have b: "\<forall>i. Suc i < length (profile h units) \<longrightarrow>
              bottom_depth (profile h units ! i)
                = Some (Fin (top_depth (profile h units ! Suc i)))"
    using chained_nth[OF c] by blast
  have l: "profile h units \<noteq> [] \<longrightarrow> bottom_depth (last (profile h units)) = Some PInf"
    using chained_last[OF c] by blast
  have d: "core dummy_unit = (''Dummy'', 0, 0, 0)"
    by (simp add: core_def dummy_unit_def)
  from a have a': "\<exists>srt. sort_units h units
               = (if units \<noteq> [] \<and> (\<forall>a\<in>set units. 0 < top_depth (h ! a))
                  then [Dummy] else []) @ map Caller srt
            \<and> mset srt = mset units
            \<and> sorted (map (\<lambda>a. top_depth (h ! a)) srt)
            \<and> (\<forall>k. filter (\<lambda>a. top_depth (h ! a) = k) srt
                     = filter (\<lambda>a. top_depth (h ! a) = k) units)"
    by blast
  show ?thesis
    using a' profile_cores[of h units] d sorted_profile[of h units] b l by blast
qed

theorem normalization_invariants_witness:
  "live [\<lparr>name = ''Unit 1'', top_depth = 5, skin_friction = 20, end_bearing = 400, bottom_depth = None\<rparr>,
         \<lparr>name = ''Unit 2'', top_depth = 2, skin_friction = 10, end_bearing = 100, bottom_depth = None\<rparr>]
        [0, 1]
   \<and> distinct [0::nat, 1]
   \<and> map bottom_depth (profile
        [\<lparr>name = ''Unit 1'', top_depth = 5, skin_friction = 20, end_bearing = 400, bottom_depth = None\<rparr>,
         \<lparr>name = ''Unit 2'', top_depth = 2, skin_friction = 10, end_bearing = 100, bottom_depth = None\<rparr>]
        [0, 1]) = [Some (Fin 2), Some (Fin 5), Some PInf]
   \<and> map core (profile
        [\<lparr>name = ''Unit 1'', top_depth = 5, skin_friction = 20, end_bearing = 400, bottom_depth = None\<rparr>,
         \<lparr>name = ''Unit 2'', top_depth = 2, skin_friction = 10, end_bearing = 100, bottom_depth = None\<rparr>]
        [0, 1]) = [(''Dummy'', 0, 0, 0), (''Unit 2'', 2, 10, 100), (''Unit 1'', 5, 20, 400)]"
  using normalization_invariants
    [of "[\<lparr>name = ''Unit 1'', top_depth = 5, skin_friction = 20, end_bearing = 400, bottom_depth = None\<rparr>,
          \<lparr>name = ''Unit 2'', top_depth = 2, skin_friction = 10, end_bearing = 100, bottom_depth = None\<rparr>]"
        "[0, 1]"]
  by (simp add: live_def profile_def final_store_def sort_units_def dummy_unit_def core_def)

section \<open>The float range\<close>

lemma overflows_zero [simp]: "\<not> overflows 0"
  by (simp add: overflows_def float_limit_def)

lemma not_overflows_small: "\<bar>x\<bar> \<le> 2 ^ 64 \<Longrightarrow> \<not> overflows x"
proof -
  have "(2::real) ^ 64 < float_limit" by (simp add: float_limit_def)
  then show "\<bar>x\<bar> \<le> 2 ^ 64 \<Longrightarrow> \<not> overflows x"
    by (simp add: overflows_def)
qed

lemma not_overflows_mono: "\<bar>x\<bar> \<le> \<bar>y\<bar> \<Longrightarrow> \<not> overflows y \<Longrightarrow> \<not> overflows x"
  by (simp add: overflows_def)

section \<open>Layer lookup and skin friction\<close>

lemma find_unit_find:
  "\<forall>u\<in>set p. bottom_depth u \<noteq> None \<Longrightarrow> find_unit p x = Inr (find (\<lambda>u. in_interval u x) p)"
  by (induction p) (auto simp: in_interval_def)

lemma find_in_set: "find P p = Some u \<Longrightarrow> u \<in> set p \<and> P u"
  by (induction p) (auto split: if_splits)

text \<open>In a chained profile every depth at or below the first top lies in some interval.\<close>

lemma chained_find:
  "chained p \<Longrightarrow> p \<noteq> [] \<Longrightarrow> top_depth (hd p) \<le> x \<Longrightarrow> find (\<lambda>u. in_interval u x) p \<noteq> None"
proof (induction p rule: chained.induct)
  case (3 u v rest)
  then show ?case by (auto simp: in_interval_def not_less)
qed (simp_all add: in_interval_def)

lemma layerAt_find:
  "find (\<lambda>u. in_interval u x) p \<noteq> None \<or> p = [] \<Longrightarrow> layerAt p x = find (\<lambda>u. in_interval u x) p"
  by (auto simp: layerAt_def split: option.splits)

lemma normalized_layerAt:
  assumes "normalized p" and "0 \<le> x"
  shows "find_unit p x = Inr (layerAt p x)"
proof -
  have c: "chained p" using assms(1) by (simp add: normalized_def)
  have b: "\<forall>u\<in>set p. bottom_depth u \<noteq> None" using chained_bottoms[OF c] by blast
  have "find (\<lambda>u. in_interval u x) p \<noteq> None \<or> p = []"
  proof (cases "p = []")
    case False
    then have "top_depth (hd p) \<le> x" using assms by (simp add: normalized_def)
    then show ?thesis using chained_find[OF c False] by simp
  qed simp
  then show ?thesis using find_unit_find[OF b] layerAt_find by simp
qed

text \<open>The friction loop adds one term for each segment.\<close>

lemma friction_loop_sum:
  assumes "\<forall>u\<in>set p. bottom_depth u \<noteq> None"
  shows "friction_loop p perimeter pile_length segs friction
           = Inr (friction + sum_list (map (seg_term p perimeter pile_length) segs))"
proof (induction segs arbitrary: friction)
  case Nil
  then show ?case by simp
next
  case (Cons seg segs)
  show ?case
    by (cases "find (\<lambda>u. in_interval u (seg_mid pile_length seg)) p")
       (simp_all add: find_unit_find[OF assms] Cons.IH seg_term_def)
qed

lemma total_friction_sum:
  assumes "\<forall>u\<in>set p. bottom_depth u \<noteq> None"
  shows "total_friction p diameter pile_length
           = (if overflows (pile_length / increment) then Inl OverflowError
              else Inr (\<Sum>k<nat \<lceil>pile_length / increment\<rceil>.
                          seg_term p (pi * diameter) pile_length k))"
  by (simp add: total_friction_def friction_loop_sum[OF assms] interv_sum_list_conv_sum_set_nat
      atLeast0LessThan)

lemma seg_mid_nonneg:
  assumes "k < nat \<lceil>pile_length / increment\<rceil>"
  shows "0 \<le> seg_top k" and "seg_top k < pile_length" and "0 \<le> seg_len pile_length k"
    and "0 \<le> seg_mid pile_length k"
proof -
  show t: "0 \<le> seg_top k" by (simp add: seg_top_def increment_def)
  have "real k < pile_length / increment" using assms by linarith
  then show l: "seg_top k < pile_length" by (simp add: seg_top_def increment_def)
  have b: "seg_top k \<le> seg_bot pile_length k"
    using l by (simp add: seg_bot_def seg_top_def increment_def)
  then show "0 \<le> seg_len pile_length k" by (simp add: seg_len_def)
  show "0 \<le> seg_mid pile_length k" using t b by (simp add: seg_mid_def)
qed

lemma seg_term_layerAt:
  assumes "normalized p" and "k < nat \<lceil>pile_length / increment\<rceil>"
  shows "seg_term p perimeter pile_length k
           = friction_of (layerAt p ((real k * (1 / 2) + min ((real k + 1) * (1 / 2)) pile_length) / 2))
               * perimeter * (min ((real k + 1) * (1 / 2)) pile_length - real k * (1 / 2))"
proof -
  have m: "0 \<le> seg_mid pile_length k" using seg_mid_nonneg(4)[OF assms(2)] .
  have c: "chained p" using assms(1) by (simp add: normalized_def)
  have b: "\<forall>u\<in>set p. bottom_depth u \<noteq> None" using chained_bottoms[OF c] by blast
  have "Inr (find (\<lambda>u. in_interval u (seg_mid pile_length k)) p)
          = (Inr (layerAt p (seg_mid pile_length k)) :: py_error + geo_unit option)"
    using normalized_layerAt[OF assms(1) m] find_unit_find[OF b] by simp
  then have "find (\<lambda>u. in_interval u (seg_mid pile_length k)) p = layerAt p (seg_mid pile_length k)"
    by simp
  then show ?thesis
    by (simp add: seg_term_def seg_mid_def seg_len_def seg_top_def seg_bot_def increment_def)
qed

text \<open>
  Claim C3. For every normalized profile, diameter and length at least 0, the skin
  friction is the sum over the segments \<open>k\<close> in \<open>[0, n)\<close>, with \<open>h = 0.5\<close> and
  \<open>n = ceil(length / h)\<close>, of the skin friction of
  \<open>layerAt((k*h + min((k+1)*h, length)) / 2)\<close> times \<open>pi * diameter\<close> times
  \<open>min((k+1)*h, length) - k*h\<close>; for length 0 it is 0. No sum is returned only
  for a length whose quotient \<open>length / h\<close> overflows: line 247 then raises
  \<open>OverflowError\<close>.
\<close>

theorem skin_friction_segments:
  assumes "normalized p" and "0 \<le> pile_length"
  shows "total_friction p diameter pile_length
           = (if overflows (pile_length / (1 / 2)) then Inl OverflowError
              else Inr (\<Sum>k<nat \<lceil>pile_length / (1 / 2)\<rceil>.
                    friction_of (layerAt p ((real k * (1 / 2)
                                   + min ((real k + 1) * (1 / 2)) pile_length) / 2))
                      * (pi * diameter)
                      * (min ((real k + 1) * (1 / 2)) pile_length - real k * (1 / 2))))
         \<and> total_friction p diameter 0 = Inr 0"
proof -
  have c: "chained p" using assms(1) by (simp add: normalized_def)
  have b: "\<forall>u\<in>set p. bottom_depth u \<noteq> None" using chained_bottoms[OF c] by blast
  have i: "pile_length / (1 / 2) = pile_length / increment"
    by (simp add: increment_def)
  have "(\<Sum>k<nat \<lceil>pile_length / increment\<rceil>. seg_term p (pi * diameter) pile_length k)
          = (\<Sum>k<nat \<lceil>pile_length / increment\<rceil>.
               friction_of (layerAt p ((real k * (1 / 2)
                              + min ((real k + 1) * (1 / 2)) pile_length) / 2))
                 * (pi * diameter)
                 * (min ((real k + 1) * (1 / 2)) pile_length - real k * (1 / 2)))"
    by (rule sum.cong[OF refl]) (simp only: lessThan_iff seg_term_layerAt[OF assms(1)])
  then have first: "total_friction p diameter pile_length
           = (if overflows (pile_length / (1 / 2)) then Inl OverflowError
              else Inr (\<Sum>k<nat \<lceil>pile_length / (1 / 2)\<rceil>.
                    friction_of (layerAt p ((real k * (1 / 2)
                                   + min ((real k + 1) * (1 / 2)) pile_length) / 2))
                      * (pi * diameter)
                      * (min ((real k + 1) * (1 / 2)) pile_length - real k * (1 / 2))))"
    unfolding i by (simp only: total_friction_sum[OF b])
  have "total_friction p diameter 0 = Inr 0"
    by (simp add: total_friction_def)
  with first show ?thesis by simp
qed

theorem skin_friction_segments_witness:
  "normalized [\<lparr>name = ''Unit 1'', top_depth = 0, skin_friction = 10, end_bearing = 500,
                bottom_depth = Some PInf\<rparr>]
   \<and> (0::real) \<le> 1
   \<and> total_friction [\<lparr>name = ''Unit 1'', top_depth = 0, skin_friction = 10, end_bearing = 500,
                bottom_depth = Some PInf\<rparr>] (3 / 5) 1 = Inr (6 * pi)"
  using skin_friction_segments
    [of "[\<lparr>name = ''Unit 1'', top_depth = 0, skin_friction = 10, end_bearing = 500,
                bottom_depth = Some PInf\<rparr>]" 1 "3 / 5"]
  by (simp add: normalized_def layerAt_def in_interval_def numeral_2_eq_2 lessThan_Suc
      overflows_def float_limit_def)

section \<open>End bearing\<close>

text \<open>
  Claim C4. With \<open>three_d_embed\<close> and \<open>skin_friction_only\<close> both false, on a profile
  whose units all carry a \<open>bottom_depth\<close> (as every profile does after lines 239-243),
  the end-bearing force is \<open>pi * (diameter / 2)\<^sup>2\<close> times the end bearing of the layer
  whose interval \<open>[top_depth, bottom_depth)\<close> holds the toe depth, the pile length, and
  of the deepest layer when no interval holds it.
\<close>

theorem simple_mode_end_bearing:
  assumes "\<forall>u\<in>set p. bottom_depth u \<noteq> None"
  shows "end_bearing_force p diameter pile_length False False
           = Inr (pi * (diameter / 2) ^ 2 * bearing_of (layerAt p pile_length))"
proof (cases "find (\<lambda>u. in_interval u pile_length) p")
  case None
  then show ?thesis
    by (cases "p = []")
       (simp_all add: end_bearing_force_def find_unit_find[OF assms] layerAt_def)
next
  case (Some u)
  then show ?thesis
    by (simp add: end_bearing_force_def find_unit_find[OF assms] layerAt_def)
qed

theorem simple_mode_end_bearing_witness:
  "end_bearing_force
        [\<lparr>name = ''Unit 1'', top_depth = 0, skin_friction = 10, end_bearing = 500,
          bottom_depth = Some (Fin 4)\<rparr>,
         \<lparr>name = ''Unit 2'', top_depth = 4, skin_friction = 30, end_bearing = 800,
          bottom_depth = Some PInf\<rparr>] 2 10 False False = Inr (800 * pi)"
  using simple_mode_end_bearing
    [of "[\<lparr>name = ''Unit 1'', top_depth = 0, skin_friction = 10, end_bearing = 500,
           bottom_depth = Some (Fin 4)\<rparr>,
          \<lparr>name = ''Unit 2'', top_depth = 4, skin_friction = 30, end_bearing = 800,
           bottom_depth = Some PInf\<rparr>]" 2 10]
  by (simp add: layerAt_def in_interval_def)

section \<open>The capacity in closed form\<close>

lemma end_bearing_force_eq:
  assumes "\<forall>u\<in>set p. bottom_depth u \<noteq> None"
  shows "end_bearing_force p diameter pile_length three_d_embed skin_friction_only
           = Inr (if skin_friction_only \<or> p = [] then 0
                  else (if three_d_embed then calculate_3d_embedment_eb pile_length diameter p
                        else bearing_of (layerAt p pile_length)) * (pi * (diameter / 2) ^ 2))"
proof (cases "find (\<lambda>u. in_interval u pile_length) p")
  case None
  then show ?thesis
    by (cases "p = []")
       (simp_all add: end_bearing_force_def find_unit_find[OF assms] layerAt_def)
next
  case (Some u)
  then have "p \<noteq> []" by auto
  with Some show ?thesis
    by (simp add: end_bearing_force_def find_unit_find[OF assms] layerAt_def)
qed

lemma calculate_capacity_eq:
  assumes "live h units" and "\<not> overflows ((diameter / 2) ^ 2)"
    and "\<not> overflows (pile_length / increment)"
  shows "calculate_capacity h diameter pile_length units reduction_factor three_d_embed
             skin_friction_only
           = (Inr (((\<Sum>k<nat \<lceil>pile_length / increment\<rceil>.
                       seg_term (profile h units) (pi * diameter) pile_length k)
                    + (if skin_friction_only \<or> profile h units = [] then 0
                       else (if three_d_embed
                             then calculate_3d_embedment_eb pile_length diameter (profile h units)
                             else bearing_of (layerAt (profile h units) pile_length))
                            * (pi * (diameter / 2) ^ 2)))
                   * reduction_factor),
              fst (final_store h units))"
proof -
  have b: "\<forall>u\<in>set (profile h units). bottom_depth u \<noteq> None"
    using profile_bottoms[OF assms(1)] by blast
  show ?thesis
    unfolding calculate_capacity_def
    by (simp only: total_friction_sum[OF b] end_bearing_force_eq[OF b] assms(2,3) if_False
        sum.case)
qed

lemma calculate_capacity_overflow:
  assumes "overflows ((diameter / 2) ^ 2) \<or> overflows (pile_length / increment)"
  shows "fst (calculate_capacity h diameter pile_length units reduction_factor three_d_embed
                skin_friction_only) = Inl OverflowError"
  using assms by (auto simp: calculate_capacity_def total_friction_def)

lemma increment_half: "x / (1 / 2) = x / increment"
  by (simp add: increment_def)

text \<open>
  Claim C6. For fixed diameter, length, layer list and flags, the capacity is
  \<open>(friction + bearing) * reduction_factor\<close>, where the skin-friction and end-bearing
  components are the same for every reduction factor; so the capacity at a reduction
  factor \<open>rf\<close> is \<open>rf\<close> times the capacity at reduction factor 1. A call that raises at
  reduction factor 1 raises the same at every reduction factor; the components exist
  whenever lines 223 and 247 do not overflow.
\<close>

theorem capacity_linear_in_reduction_factor:
  assumes "live h units"
  shows "(\<forall>rf. fst (calculate_capacity h diameter pile_length units rf three_d_embed
                      skin_friction_only)
              = (case fst (calculate_capacity h diameter pile_length units 1 three_d_embed
                             skin_friction_only) of
                   Inl e \<Rightarrow> Inl e
                 | Inr c1 \<Rightarrow> Inr (rf * c1)))
       \<and> (\<not> overflows ((diameter / 2) ^ 2) \<and> \<not> overflows (pile_length / (1 / 2)) \<longrightarrow>
           (\<exists>friction bearing.
              total_friction (profile h units) diameter pile_length = Inr friction
            \<and> end_bearing_force (profile h units) diameter pile_length three_d_embed
                  skin_friction_only = Inr bearing
            \<and> (\<forall>rf. fst (calculate_capacity h diameter pile_length units rf three_d_embed
                            skin_friction_only) = Inr ((friction + bearing) * rf))
            \<and> fst (calculate_capacity h diameter pile_length units 1 three_d_embed
                      skin_friction_only) = Inr (friction + bearing)
            \<and> (\<forall>rf. fst (calculate_capacity h diameter pile_length units rf three_d_embed
                            skin_friction_only) = Inr (rf * (friction + bearing)))))"
proof (cases "overflows ((diameter / 2) ^ 2) \<or> overflows (pile_length / increment)")
  case True
  then show ?thesis
    unfolding increment_half by (auto simp: calculate_capacity_overflow)
next
  case False
  then have a: "\<not> overflows ((diameter / 2) ^ 2)" and l: "\<not> overflows (pile_length / increment)"
    by simp_all
  have b: "\<forall>u\<in>set (profile h units). bottom_depth u \<noteq> None"
    using profile_bottoms[OF assms] by blast
  obtain friction where f: "total_friction (profile h units) diameter pile_length = Inr friction"
    using total_friction_sum[OF b, of diameter pile_length] l by simp
  obtain bearing where e: "end_bearing_force (profile h units) diameter pile_length three_d_embed
               skin_friction_only = Inr bearing"
    using end_bearing_force_eq[OF b] by blast
  have all: "\<forall>rf. fst (calculate_capacity h diameter pile_length units rf three_d_embed
                         skin_friction_only) = Inr ((friction + bearing) * rf)"
    using a by (simp add: calculate_capacity_def f e)
  then have rel: "\<forall>rf. fst (calculate_capacity h diameter pile_length units rf three_d_embed
                      skin_friction_only)
              = (case fst (calculate_capacity h diameter pile_length units 1 three_d_embed
                             skin_friction_only) of
                   Inl e \<Rightarrow> Inl e
                 | Inr c1 \<Rightarrow> Inr (rf * c1))"
    by (simp add: mult.commute)
  have "\<exists>friction bearing.
              total_friction (profile h units) diameter pile_length = Inr friction
            \<and> end_bearing_force (profile h units) diameter pile_length three_d_embed
                  skin_friction_only = Inr bearing
            \<and> (\<forall>rf. fst (calculate_capacity h diameter pile_length units rf three_d_embed
                            skin_friction_only) = Inr ((friction + bearing) * rf))
            \<and> fst (calculate_capacity h diameter pile_length units 1 three_d_embed
                      skin_friction_only) = Inr (friction + bearing)
            \<and> (\<forall>rf. fst (calculate_capacity h diameter pile_length units rf three_d_embed
                            skin_friction_only) = Inr (rf * (friction + bearing)))"
    using f e all by (intro exI[of _ friction] exI[of _ bearing]) (simp add: mult.commute)
  with rel show ?thesis by blast
qed

theorem capacity_linear_in_reduction_factor_witness:
  "live [\<lparr>name = ''Unit 1'', top_depth = 0, skin_friction = 10, end_bearing = 500,
          bottom_depth = None\<rparr>] [0]
   \<and> (\<exists>c1. fst (calculate_capacity
                   [\<lparr>name = ''Unit 1'', top_depth = 0, skin_friction = 10, end_bearing = 500,
                     bottom_depth = None\<rparr>] (3 / 5) 1 [0] 1 False False) = Inr c1
          \<and> fst (calculate_capacity
                   [\<lparr>name = ''Unit 1'', top_depth = 0, skin_friction = 10, end_bearing = 500,
                     bottom_depth = None\<rparr>] (3 / 5) 1 [0] (1 / 2) False False)
              = Inr (1 / 2 * c1))"
proof -
  have l: "live [\<lparr>name = ''Unit 1'', top_depth = 0, skin_friction = 10, end_bearing = 500,
          bottom_depth = None\<rparr>] [0]"
    by (simp add: live_def)
  have a: "\<not> overflows ((3 / 5 / 2) ^ 2)"
    by (rule not_overflows_small) (simp add: power2_eq_square)
  have q: "\<not> overflows (1 / (1 / 2))"
    by (rule not_overflows_small) simp
  show ?thesis
    using l a q capacity_linear_in_reduction_factor[OF l, of "3 / 5" 1 False False]
    by metis
qed

section \<open>Ranges and signs\<close>



lemma profile_core_cases:
  assumes "u \<in> set (profile h units)"
  shows "core u = core dummy_unit \<or> (\<exists>a\<in>set units. core u = core (h ! a))"
proof -
  have "core u \<in> set (map core (profile h units))" using assms by simp
  then obtain r where r: "r \<in> set (sort_units h units)"
    and c: "core u = core (deref (h, dummy_unit) r)"
    unfolding profile_cores by auto
  show ?thesis
  proof (cases r)
    case (Caller a)
    then show ?thesis using r c Caller_sort_units[of a h units] by auto
  next
    case Dummy
    then show ?thesis using c by simp
  qed
qed

lemma profile_nonneg:
  assumes "\<forall>a\<in>set units. 0 \<le> skin_friction (h ! a)" and "u \<in> set (profile h units)"
  shows "0 \<le> skin_friction u"
  using profile_core_cases[OF assms(2)] assms(1) by (auto simp: core_def dummy_unit_def)


lemma friction_of_find_nonneg:
  assumes "\<forall>u\<in>set p. 0 \<le> skin_friction u"
  shows "0 \<le> friction_of (find P p)"
proof (cases "find P p")
  case (Some u)
  then show ?thesis using find_in_set[OF Some] assms by simp
qed simp

lemma seg_term_nonneg:
  assumes "\<forall>u\<in>set p. 0 \<le> skin_friction u" and "0 \<le> perimeter"
    and "k < nat \<lceil>pile_length / increment\<rceil>"
  shows "0 \<le> seg_term p perimeter pile_length k"
  unfolding seg_term_def
  using friction_of_find_nonneg[OF assms(1)] assms(2) seg_mid_nonneg(3)[OF assms(3)]
  by (intro mult_nonneg_nonneg)







section \<open>Validation\<close>




section \<open>Monotonicity in the length\<close>

text \<open>Segments that lie entirely above both lengths are the same for both.\<close>

lemma seg_term_whole:
  assumes "k < m" and "real m / 2 \<le> pile_length"
  shows "seg_term p perimeter pile_length k = seg_term p perimeter (real m / 2) k"
proof -
  have k: "(real k + 1) / 2 \<le> real m / 2" using assms(1) by simp
  then have "(real k + 1) / 2 \<le> pile_length" using assms(2) by linarith
  then have "seg_bot pile_length k = seg_bot (real m / 2) k"
    using k by (simp add: seg_bot_def increment_def min_def)
  then show ?thesis by (simp add: seg_term_def seg_mid_def seg_len_def)
qed

lemma segments_whole: "nat \<lceil>(real m / 2) / increment\<rceil> = m"
  by (simp add: increment_def)

lemma segments_mono:
  assumes "real m / 2 \<le> pile_length"
  shows "m \<le> nat \<lceil>pile_length / increment\<rceil>"
proof -
  have "real m \<le> pile_length / increment" using assms by (simp add: increment_def)
  then have "int m \<le> \<lceil>pile_length / increment\<rceil>" by linarith
  then show ?thesis by linarith
qed

lemma friction_sum_mono:
  assumes "\<forall>u\<in>set p. 0 \<le> skin_friction u" and "0 \<le> diameter"
    and "real m / 2 \<le> pile_length"
  shows "(\<Sum>k<nat \<lceil>(real m / 2) / increment\<rceil>. seg_term p (pi * diameter) (real m / 2) k)
           \<le> (\<Sum>k<nat \<lceil>pile_length / increment\<rceil>. seg_term p (pi * diameter) pile_length k)"
proof -
  let ?n = "nat \<lceil>pile_length / increment\<rceil>"
  have per: "0 \<le> pi * diameter" using assms(2) by simp
  have "(\<Sum>k<m. seg_term p (pi * diameter) (real m / 2) k)
          = (\<Sum>k<m. seg_term p (pi * diameter) pile_length k)"
    by (rule sum.cong[OF refl]) (simp add: seg_term_whole[OF _ assms(3)])
  also have "\<dots> \<le> (\<Sum>k<?n. seg_term p (pi * diameter) pile_length k)"
  proof (rule sum_mono2)
    show "finite {..<?n}" by simp
    show "{..<m} \<subseteq> {..<?n}" using segments_mono[OF assms(3)] by auto
    fix b assume "b \<in> {..<?n} - {..<m}"
    then have "b < ?n" by simp
    then show "0 \<le> seg_term p (pi * diameter) pile_length b"
      using seg_term_nonneg[OF assms(1) per] by simp
  qed
  finally show ?thesis by (simp only: segments_whole)
qed

text \<open>
  Claim C8 says that with \<open>skin_friction_only\<close> the capacity never decreases as the
  length grows. A segment is looked up at its midpoint, and the last segment is cut at
  the length: with a unit of skin friction 100 on \<open>[0, 0.2)\<close> above a unit of skin
  friction 0, the length 0.3 has its only segment's midpoint at 0.15, in the upper unit,
  and the length 0.5 has it at 0.25, in the lower one.
\<close>

theorem skin_only_monotone_counterexample:
  "(0::real) \<le> 3 / 10 \<and> (3::real) / 10 \<le> 1 / 2
   \<and> fst (calculate_capacity
            [\<lparr>name = ''Unit 1'', top_depth = 0, skin_friction = 100, end_bearing = 0,
              bottom_depth = None\<rparr>,
             \<lparr>name = ''Unit 2'', top_depth = 1 / 5, skin_friction = 0, end_bearing = 0,
              bottom_depth = None\<rparr>] 1 (3 / 10) [0, 1] 1 False True) = Inr (30 * pi)
   \<and> fst (calculate_capacity
            [\<lparr>name = ''Unit 1'', top_depth = 0, skin_friction = 100, end_bearing = 0,
              bottom_depth = None\<rparr>,
             \<lparr>name = ''Unit 2'', top_depth = 1 / 5, skin_friction = 0, end_bearing = 0,
              bottom_depth = None\<rparr>] 1 (1 / 2) [0, 1] 1 False True) = Inr 0
   \<and> \<not> (30 * pi \<le> (0::real))"
  using pi_gt_zero
  by (simp add: calculate_capacity_def total_friction_def end_bearing_force_def profile_def
      final_store_def sort_units_def increment_def seg_mid_def seg_top_def seg_bot_def
      seg_len_def not_le overflows_def float_limit_def power2_eq_square)

text \<open>
  Claim C8, amended. For live references, layers with non-negative skin friction, a
  diameter and a reduction factor at least 0, and \<open>skin_friction_only\<close> true: when the
  shorter length is a whole number of 0.5 m segments, \<open>L1 = m * 0.5\<close>, and
  \<open>L1 \<le> L2\<close>, with the diameter and \<open>L2\<close> small enough that neither
  \<open>(diameter / 2) ** 2\<close> nor \<open>L2 / 0.5\<close> overflows, both calls return a number and
  the capacity at \<open>L1\<close> is at most the capacity at \<open>L2\<close>.
\<close>

theorem skin_only_monotone_whole_segments:
  assumes "live h units" and "\<forall>a\<in>set units. 0 \<le> skin_friction (h ! a)"
    and "0 \<le> diameter" and "0 \<le> reduction_factor" and "real m / 2 \<le> L2"
    and "\<not> overflows ((diameter / 2) ^ 2)" and "\<not> overflows (L2 / (1 / 2))"
  shows "\<exists>c1 c2.
           fst (calculate_capacity h diameter (real m / 2) units reduction_factor three_d_embed
                  True) = Inr c1
         \<and> fst (calculate_capacity h diameter L2 units reduction_factor three_d_embed True)
             = Inr c2
         \<and> c1 \<le> c2"
proof -
  have sf: "\<forall>u\<in>set (profile h units). 0 \<le> skin_friction u"
    using profile_nonneg[of units h] assms(2) by blast
  have q2: "\<not> overflows (L2 / increment)"
    using assms(7) unfolding increment_half .
  have "\<bar>(real m / 2) / increment\<bar> \<le> \<bar>L2 / increment\<bar>"
    using assms(5) by (simp add: increment_def)
  then have q1: "\<not> overflows ((real m / 2) / increment)"
    using q2 by (rule not_overflows_mono)
  have "(\<Sum>k<nat \<lceil>(real m / 2) / increment\<rceil>.
            seg_term (profile h units) (pi * diameter) (real m / 2) k) * reduction_factor
          \<le> (\<Sum>k<nat \<lceil>L2 / increment\<rceil>.
            seg_term (profile h units) (pi * diameter) L2 k) * reduction_factor"
    using friction_sum_mono[OF sf assms(3) assms(5)] assms(4) by (rule mult_right_mono)
  then show ?thesis
    unfolding calculate_capacity_eq[OF assms(1) assms(6) q1]
      calculate_capacity_eq[OF assms(1) assms(6) q2]
    by simp
qed

theorem skin_only_monotone_whole_segments_witness:
  "live [\<lparr>name = ''Unit 1'', top_depth = 0, skin_friction = 100, end_bearing = 0,
          bottom_depth = None\<rparr>,
         \<lparr>name = ''Unit 2'', top_depth = 1 / 5, skin_friction = 20, end_bearing = 0,
          bottom_depth = None\<rparr>] [0, 1]
   \<and> (\<exists>c1 c2.
        fst (calculate_capacity
            [\<lparr>name = ''Unit 1'', top_depth = 0, skin_friction = 100, end_bearing = 0,
              bottom_depth = None\<rparr>,
             \<lparr>name = ''Unit 2'', top_depth = 1 / 5, skin_friction = 20, end_bearing = 0,
              bottom_depth = None\<rparr>] 1 (real 1 / 2) [0, 1] 1 False True) = Inr c1
      \<and> fst (calculate_capacity
            [\<lparr>name = ''Unit 1'', top_depth = 0, skin_friction = 100, end_bearing = 0,
              bottom_depth = None\<rparr>,
             \<lparr>name = ''Unit 2'', top_depth = 1 / 5, skin_friction = 20, end_bearing = 0,
              bottom_depth = None\<rparr>] 1 (7 / 10) [0, 1] 1 False True) = Inr c2
      \<and> c1 \<le> c2)"
proof -
  have l: "live [\<lparr>name = ''Unit 1'', top_depth = 0, skin_friction = 100, end_bearing = 0,
          bottom_depth = None\<rparr>,
         \<lparr>name = ''Unit 2'', top_depth = 1 / 5, skin_friction = 20, end_bearing = 0,
          bottom_depth = None\<rparr>] [0, 1]"
    by (simp add: live_def)
  have n: "\<forall>a\<in>set [0::nat, 1].
             0 \<le> skin_friction
               ([\<lparr>name = ''Unit 1'', top_depth = 0, skin_friction = 100, end_bearing = 0,
                  bottom_depth = None\<rparr>,
                 \<lparr>name = ''Unit 2'', top_depth = 1 / 5, skin_friction = 20, end_bearing = 0,
                  bottom_depth = None\<rparr>] ! a)"
    by simp
  have d: "(0::real) \<le> 1" by simp
  have s: "real 1 / 2 \<le> 7 / 10" by simp
  have a: "\<not> overflows ((1 / 2) ^ 2)"
    by (rule not_overflows_small) (simp add: power2_eq_square)
  have q: "\<not> overflows (7 / 10 / (1 / 2))"
    by (rule not_overflows_small) simp
  show ?thesis
    using l skin_only_monotone_whole_segments[OF l n d d s a q, of False] by blast
qed

section \<open>Calls on a store an earlier call has written\<close>

lemma deref_Caller: "deref s (Caller a) = fst s ! a"
  by (cases s) simp

lemma live_ref_length:
  "length (fst s1) = length (fst s2) \<Longrightarrow> live_ref s1 r = live_ref s2 r"
  by (cases s1; cases s2; cases r) simp_all

lemma core_eq_update:
  "core u = core v \<Longrightarrow> u\<lparr>bottom_depth := b\<rparr> = v\<lparr>bottom_depth := b\<rparr>"
  by (cases u; cases v) (simp add: core_def)

lemma agree_set_bottom_depth:
  assumes "agree s1 s2 R" and "live_ref s1 r"
  shows "agree (set_bottom_depth s1 r b) (set_bottom_depth s2 r b) (insert r R)"
proof -
  have len: "length (fst s1) = length (fst s2)" using assms(1) by (simp add: agree_def)
  have l2: "live_ref s2 r" using assms(2) live_ref_length[OF len] by simp
  have c: "core (deref s1 r) = core (deref s2 r)"
    using assms by (simp add: agree_def)
  have same: "deref (set_bottom_depth s1 r b) r = deref (set_bottom_depth s2 r b) r"
    by (simp only: deref_set_bottom_depth_same[OF assms(2)] deref_set_bottom_depth_same[OF l2]
        core_eq_update[OF c])
  have other: "\<And>r'. r' \<noteq> r \<Longrightarrow> live_ref s1 r' \<Longrightarrow> r' \<in> R \<Longrightarrow>
                 deref (set_bottom_depth s1 r b) r' = deref (set_bottom_depth s2 r b) r'"
    using assms(1) by (simp add: deref_set_bottom_depth_other agree_def)
  show ?thesis
    unfolding agree_def
  proof (intro conjI allI impI)
    show "length (fst (set_bottom_depth s1 r b)) = length (fst (set_bottom_depth s2 r b))"
      using len by simp
  next
    fix r' assume "live_ref (set_bottom_depth s1 r b) r'"
    then show "core (deref (set_bottom_depth s1 r b) r') = core (deref (set_bottom_depth s2 r b) r')"
      using assms(1) by (simp add: agree_def)
  next
    fix r' assume "live_ref (set_bottom_depth s1 r b) r'" and "r' \<in> insert r R"
    then show "deref (set_bottom_depth s1 r b) r' = deref (set_bottom_depth s2 r b) r'"
      using same other by (cases "r' = r") auto
  qed
qed

lemma agree_top_depth:
  "agree s1 s2 R \<Longrightarrow> live_ref s1 r \<Longrightarrow> top_depth (deref s1 r) = top_depth (deref s2 r)"
  using top_depth_core[of "deref s1 r" "deref s2 r"] by (simp add: agree_def)

lemma agree_assign_bottoms:
  "agree s1 s2 R \<Longrightarrow> \<forall>r\<in>set rs. live_ref s1 r \<Longrightarrow>
     agree (assign_bottoms s1 rs) (assign_bottoms s2 rs) (R \<union> set rs)"
proof (induction s1 rs arbitrary: s2 R rule: assign_bottoms.induct)
  case (1 s)
  then show ?case by simp
next
  case (2 s r)
  then show ?case using agree_set_bottom_depth[of s s2 R r PInf] by simp
next
  case (3 s r nxt rest)
  let ?b = "Fin (top_depth (deref s nxt))"
  have b: "Fin (top_depth (deref s2 nxt)) = ?b"
    using agree_top_depth[OF 3(2), of nxt] 3(3) by simp
  have a: "agree (set_bottom_depth s r ?b) (set_bottom_depth s2 r ?b) (insert r R)"
    using agree_set_bottom_depth[OF 3(2)] 3(3) by simp
  have "agree (assign_bottoms (set_bottom_depth s r ?b) (nxt # rest))
              (assign_bottoms (set_bottom_depth s2 r ?b) (nxt # rest))
              (insert r R \<union> set (nxt # rest))"
    using 3(1)[OF a] 3(3) by simp
  then show ?case by (simp add: b insert_commute)
qed

lemma sort_key_cong_set:
  fixes f g :: "'a \<Rightarrow> real"
  assumes "\<forall>x\<in>set xs. f x = g x"
  shows "sort_key f xs = sort_key g xs"
  using assms
proof (induction xs)
  case Nil
  then show ?case by simp
next
  case (Cons x xs)
  have ins: "\<And>ys. \<forall>y\<in>set ys. f y = g y \<Longrightarrow> insort_key f x ys = insort_key g x ys"
  proof -
    fix ys show "\<forall>y\<in>set ys. f y = g y \<Longrightarrow> insort_key f x ys = insort_key g x ys"
      using Cons.prems by (induction ys) simp_all
  qed
  have eq: "\<forall>y\<in>set (sort_key g xs). f y = g y" using Cons.prems by simp
  have ih: "sort_key f xs = sort_key g xs" using Cons by simp
  have "sort_key f (x # xs) = insort_key f x (sort_key g xs)"
    by (simp only: sort_key_simps ih)
  also have "\<dots> = insort_key g x (sort_key g xs)"
    using eq by (rule ins)
  finally show ?case by simp
qed

lemma snd_calculate_capacity:
  "snd (calculate_capacity h diameter pile_length units reduction_factor three_d_embed
          skin_friction_only)
     = (if overflows ((diameter / 2) ^ 2) then h else fst (final_store h units))"
  by (simp add: calculate_capacity_def split: sum.splits)

lemma final_store_length: "length (fst (final_store h units)) = length h"
  by (simp add: final_store_def)

lemma final_store_core: "core (fst (final_store h units) ! a) = core (h ! a)"
proof -
  have "core (deref (final_store h units) (Caller a)) = core (deref (h, dummy_unit) (Caller a))"
    unfolding final_store_def by (rule core_assign_bottoms)
  then show ?thesis by (simp add: deref_Caller)
qed

lemma final_store_other:
  assumes "a \<notin> set units"
  shows "fst (final_store h units) ! a = h ! a"
proof -
  have "Caller a \<notin> set (sort_units h units)"
    using assms by (simp add: Caller_sort_units)
  then have "deref (final_store h units) (Caller a) = deref (h, dummy_unit) (Caller a)"
    unfolding final_store_def by (rule deref_assign_bottoms_other)
  then show ?thesis by (simp add: deref_Caller)
qed

lemma final_store_bottom:
  assumes "live h units" and "a \<in> set units"
  shows "bottom_depth (fst (final_store h units) ! a) \<noteq> None"
proof -
  have r: "Caller a \<in> set (sort_units h units)"
    using assms(2) by (simp add: Caller_sort_units)
  have "bottom_depth (deref (final_store h units) (Caller a)) \<noteq> None"
    unfolding final_store_def
    using r live_sort_units[OF assms(1) r] by (rule bottom_assign_bottoms_set)
  then show ?thesis by (simp add: deref_Caller)
qed

text \<open>Sorting reads only the top depths, which no call changes.\<close>

lemma sort_units_cong:
  assumes "\<forall>a\<in>set units. top_depth (h1 ! a) = top_depth (h2 ! a)"
  shows "sort_units h1 units = sort_units h2 units"
proof -
  have s: "sort_key (\<lambda>a. top_depth (h1 ! a)) units = sort_key (\<lambda>a. top_depth (h2 ! a)) units"
    using assms by (rule sort_key_cong_set)
  have p: "pad h1 units = pad h2 units"
    using assms by (simp add: pad_def)
  show ?thesis by (simp only: sort_units_eq s p)
qed

lemma second_call_same_store:
  assumes "live h units"
  shows "profile (fst (final_store h units)) units = profile h units
       \<and> fst (final_store (fst (final_store h units)) units) = fst (final_store h units)"
proof -
  define h' where "h' = fst (final_store h units)"
  define rs where "rs = sort_units h units"
  define s1 where "s1 = assign_bottoms (h, dummy_unit) rs"
  define s2 where "s2 = assign_bottoms (h', dummy_unit) rs"
  have f1: "final_store h units = s1"
    by (simp only: final_store_def s1_def rs_def)
  have tops: "\<forall>a\<in>set units. top_depth (h' ! a) = top_depth (h ! a)"
    unfolding h'_def using final_store_core[of h units] by (auto dest: top_depth_core)
  have rs': "sort_units h' units = rs"
    unfolding rs_def using tops by (rule sort_units_cong)
  have f2: "final_store h' units = s2"
    by (simp only: final_store_def s2_def rs')
  have live: "\<forall>r\<in>set rs. live_ref (h, dummy_unit) r"
    unfolding rs_def using live_sort_units[OF assms] by blast
  have a0: "agree (h, dummy_unit) (h', dummy_unit) {}"
    unfolding agree_def
  proof (intro conjI allI impI)
    show "length (fst (h, dummy_unit)) = length (fst (h', dummy_unit))"
      by (simp add: h'_def final_store_length)
  next
    fix r assume "live_ref (h, dummy_unit) r"
    show "core (deref (h, dummy_unit) r) = core (deref (h', dummy_unit) r)"
      by (cases r) (simp_all add: h'_def final_store_core)
  next
    fix r :: ref assume "r \<in> {}"
    then show "deref (h, dummy_unit) r = deref (h', dummy_unit) r" by simp
  qed
  have a: "agree s1 s2 (set rs)"
    using agree_assign_bottoms[OF a0 live] by (simp only: s1_def s2_def Un_empty_left)
  have eq: "\<And>r. r \<in> set rs \<Longrightarrow> deref s1 r = deref s2 r"
  proof -
    fix r assume r: "r \<in> set rs"
    have "live_ref s1 r"
      using live r by (simp add: s1_def)
    then show "deref s1 r = deref s2 r"
      using a r by (simp add: agree_def)
  qed
  have p: "profile h' units = profile h units"
    unfolding profile_def rs' f1 f2 rs_def[symmetric]
    using eq by (intro map_cong refl) simp
  have h1: "fst s1 = h'" by (simp only: h'_def f1)
  have "fst s2 = h'"
  proof (rule nth_equalityI)
    show "length (fst s2) = length h'"
      by (simp add: s2_def)
  next
    fix i assume "i < length (fst s2)"
    show "fst s2 ! i = h' ! i"
    proof (cases "i \<in> set units")
      case True
      then have "Caller i \<in> set rs" by (simp add: rs_def Caller_sort_units)
      from eq[OF this] show ?thesis by (simp add: deref_Caller h1)
    next
      case False
      then have "fst (final_store h' units) ! i = h' ! i" by (rule final_store_other)
      then show ?thesis by (simp only: f2)
    qed
  qed
  then have "fst (final_store h' units) = h'" by (simp only: f2)
  with p show ?thesis by (simp only: h'_def)
qed

lemma second_call:
  assumes "live h units"
  shows "fst (calculate_capacity (fst (final_store h units)) diameter pile_length units
                reduction_factor three_d_embed skin_friction_only)
           = fst (calculate_capacity h diameter pile_length units reduction_factor
                    three_d_embed skin_friction_only)
       \<and> snd (calculate_capacity (fst (final_store h units)) diameter pile_length units
                reduction_factor three_d_embed skin_friction_only)
           = fst (final_store h units)"
proof -
  have p: "profile (fst (final_store h units)) units = profile h units"
    and f: "fst (final_store (fst (final_store h units)) units) = fst (final_store h units)"
    using second_call_same_store[OF assms] by simp_all
  have 1: "fst (calculate_capacity (fst (final_store h units)) diameter pile_length units
                reduction_factor three_d_embed skin_friction_only)
           = fst (calculate_capacity h diameter pile_length units reduction_factor
                    three_d_embed skin_friction_only)"
    unfolding calculate_capacity_def p f
    by (cases "overflows ((diameter / 2) ^ 2)") (simp_all split: sum.splits)
  have 2: "snd (calculate_capacity (fst (final_store h units)) diameter pile_length units
                reduction_factor three_d_embed skin_friction_only)
           = fst (final_store h units)"
    by (simp add: snd_calculate_capacity f)
  show ?thesis using 1 2 by blast
qed

section \<open>What a call writes\<close>

text \<open>
  Claim C9 says that the caller's layer records are unchanged after a call, no field
  added. Line 241 or 243 stores \<open>bottom_depth\<close> into each dict of the caller's list:
  a record supplied without that key has it afterwards.
\<close>

theorem capacity_inputs_unchanged_counterexample:
  "snd (calculate_capacity
          [\<lparr>name = ''Unit 1'', top_depth = 0, skin_friction = 10, end_bearing = 500,
            bottom_depth = None\<rparr>] 1 1 [0] 1 False False)
     = [\<lparr>name = ''Unit 1'', top_depth = 0, skin_friction = 10, end_bearing = 500,
         bottom_depth = Some PInf\<rparr>]
   \<and> [\<lparr>name = ''Unit 1'', top_depth = 0, skin_friction = 10, end_bearing = 500,
        bottom_depth = Some PInf\<rparr>]
     \<noteq> [\<lparr>name = ''Unit 1'', top_depth = 0, skin_friction = 10, end_bearing = 500,
         bottom_depth = None\<rparr>]"
  by (simp add: snd_calculate_capacity final_store_def sort_units_def overflows_def
      float_limit_def power2_eq_square)

text \<open>
  Claim C9, amended. A call writes one field of the caller's records: every record of
  the list gets \<open>bottom_depth\<close>, added or overwritten, unless the call raises on line
  223, before it has written anything. No record is added or removed; \<open>name\<close>,
  \<open>top_depth\<close>, \<open>skin_friction\<close> and \<open>end_bearing\<close> of every record are unchanged;
  records not in the list are untouched. What a call returns or raises does not depend
  on a \<open>bottom_depth\<close> already there: a later call on the written records, with any
  geometry, reduction factor and flags, returns what it returns on the original records,
  and it leaves the records as the first call wrote them.
\<close>

theorem capacity_writes_only_bottom_depth:
  assumes "live h units"
  shows "length (snd (calculate_capacity h diameter pile_length units reduction_factor
                        three_d_embed skin_friction_only)) = length h
       \<and> (\<forall>a. name (snd (calculate_capacity h diameter pile_length units reduction_factor
                            three_d_embed skin_friction_only) ! a) = name (h ! a)
              \<and> top_depth (snd (calculate_capacity h diameter pile_length units
                            reduction_factor three_d_embed skin_friction_only) ! a)
                  = top_depth (h ! a)
              \<and> skin_friction (snd (calculate_capacity h diameter pile_length units
                            reduction_factor three_d_embed skin_friction_only) ! a)
                  = skin_friction (h ! a)
              \<and> end_bearing (snd (calculate_capacity h diameter pile_length units
                            reduction_factor three_d_embed skin_friction_only) ! a)
                  = end_bearing (h ! a))
       \<and> (\<forall>a. a \<notin> set units \<longrightarrow>
              snd (calculate_capacity h diameter pile_length units reduction_factor
                     three_d_embed skin_friction_only) ! a = h ! a)
       \<and> (\<not> overflows ((diameter / 2) ^ 2) \<longrightarrow>
            (\<forall>a\<in>set units.
               bottom_depth (snd (calculate_capacity h diameter pile_length units
                                    reduction_factor three_d_embed skin_friction_only) ! a)
                 \<noteq> None))
       \<and> (overflows ((diameter / 2) ^ 2) \<longrightarrow>
            snd (calculate_capacity h diameter pile_length units reduction_factor
                   three_d_embed skin_friction_only) = h)
       \<and> (\<forall>d2 l2 rf2 t2 s2.
              fst (calculate_capacity
                     (snd (calculate_capacity h diameter pile_length units reduction_factor
                             three_d_embed skin_friction_only)) d2 l2 units rf2 t2 s2)
                = fst (calculate_capacity h d2 l2 units rf2 t2 s2))
       \<and> (\<not> overflows ((diameter / 2) ^ 2) \<longrightarrow>
            (\<forall>d2 l2 rf2 t2 s2.
               snd (calculate_capacity
                      (snd (calculate_capacity h diameter pile_length units reduction_factor
                              three_d_embed skin_friction_only)) d2 l2 units rf2 t2 s2)
                 = snd (calculate_capacity h diameter pile_length units reduction_factor
                          three_d_embed skin_friction_only)))"
proof (cases "overflows ((diameter / 2) ^ 2)")
  case True
  then have "snd (calculate_capacity h diameter pile_length units reduction_factor
                        three_d_embed skin_friction_only) = h"
    by (simp add: snd_calculate_capacity)
  with True show ?thesis by simp
next
  case False
  define h' where "h' = snd (calculate_capacity h diameter pile_length units reduction_factor
                        three_d_embed skin_friction_only)"
  have h': "h' = fst (final_store h units)"
    using False by (simp add: h'_def snd_calculate_capacity)
  have 1: "length h' = length h"
    by (simp only: h' final_store_length)
  have c: "\<And>a. core (h' ! a) = core (h ! a)"
    by (simp only: h' final_store_core)
  have 2: "\<forall>a. name (h' ! a) = name (h ! a) \<and> top_depth (h' ! a) = top_depth (h ! a)
              \<and> skin_friction (h' ! a) = skin_friction (h ! a)
              \<and> end_bearing (h' ! a) = end_bearing (h ! a)"
    using c by (simp add: core_def)
  have 3: "\<forall>a. a \<notin> set units \<longrightarrow> h' ! a = h ! a"
    by (simp add: h' final_store_other)
  have 4: "\<forall>a\<in>set units. bottom_depth (h' ! a) \<noteq> None"
    using final_store_bottom[OF assms] by (simp only: h') blast
  have 5: "\<forall>d2 l2 rf2 t2 s2.
              fst (calculate_capacity h' d2 l2 units rf2 t2 s2)
                = fst (calculate_capacity h d2 l2 units rf2 t2 s2)"
    using second_call[OF assms] by (simp only: h') blast
  have 6: "\<forall>d2 l2 rf2 t2 s2. snd (calculate_capacity h' d2 l2 units rf2 t2 s2) = h'"
    using second_call[OF assms] by (simp only: h') blast
  show ?thesis
    using False 1 2 3 4 5 6 unfolding h'_def by blast
qed

theorem capacity_writes_only_bottom_depth_witness:
  "live [\<lparr>name = ''Unit 1'', top_depth = 0, skin_friction = 10, end_bearing = 500,
          bottom_depth = None\<rparr>,
         \<lparr>name = ''Unit 2'', top_depth = 4, skin_friction = 30, end_bearing = 800,
          bottom_depth = None\<rparr>] [0]
   \<and> snd (calculate_capacity
        [\<lparr>name = ''Unit 1'', top_depth = 0, skin_friction = 10, end_bearing = 500,
          bottom_depth = None\<rparr>,
         \<lparr>name = ''Unit 2'', top_depth = 4, skin_friction = 30, end_bearing = 800,
          bottom_depth = None\<rparr>] 1 1 [0] 1 False False)
      = [\<lparr>name = ''Unit 1'', top_depth = 0, skin_friction = 10, end_bearing = 500,
          bottom_depth = Some PInf\<rparr>,
         \<lparr>name = ''Unit 2'', top_depth = 4, skin_friction = 30, end_bearing = 800,
          bottom_depth = None\<rparr>]
   \<and> fst (calculate_capacity
        (snd (calculate_capacity
          [\<lparr>name = ''Unit 1'', top_depth = 0, skin_friction = 10, end_bearing = 500,
            bottom_depth = None\<rparr>,
           \<lparr>name = ''Unit 2'', top_depth = 4, skin_friction = 30, end_bearing = 800,
            bottom_depth = None\<rparr>] 1 1 [0] 1 False False)) 2 3 [0] 1 True False)
      = fst (calculate_capacity
          [\<lparr>name = ''Unit 1'', top_depth = 0, skin_friction = 10, end_bearing = 500,
            bottom_depth = None\<rparr>,
           \<lparr>name = ''Unit 2'', top_depth = 4, skin_friction = 30, end_bearing = 800,
            bottom_depth = None\<rparr>] 2 3 [0] 1 True False)
   \<and> snd (calculate_capacity
        (snd (calculate_capacity
          [\<lparr>name = ''Unit 1'', top_depth = 0, skin_friction = 10, end_bearing = 500,
            bottom_depth = None\<rparr>,
           \<lparr>name = ''Unit 2'', top_depth = 4, skin_friction = 30, end_bearing = 800,
            bottom_depth = None\<rparr>] 1 1 [0] 1 False False)) 2 3 [0] 1 True False)
      = snd (calculate_capacity
          [\<lparr>name = ''Unit 1'', top_depth = 0, skin_friction = 10, end_bearing = 500,
            bottom_depth = None\<rparr>,
           \<lparr>name = ''Unit 2'', top_depth = 4, skin_friction = 30, end_bearing = 800,
            bottom_depth = None\<rparr>] 1 1 [0] 1 False False)"
proof -
  have l: "live [\<lparr>name = ''Unit 1'', top_depth = 0, skin_friction = 10, end_bearing = 500,
          bottom_depth = None\<rparr>,
         \<lparr>name = ''Unit 2'', top_depth = 4, skin_friction = 30, end_bearing = 800,
          bottom_depth = None\<rparr>] [0]"
    by (simp add: live_def)
  have a: "\<not> overflows ((1 / 2) ^ 2)"
    by (rule not_overflows_small) (simp add: power2_eq_square)
  have s: "snd (calculate_capacity
        [\<lparr>name = ''Unit 1'', top_depth = 0, skin_friction = 10, end_bearing = 500,
          bottom_depth = None\<rparr>,
         \<lparr>name = ''Unit 2'', top_depth = 4, skin_friction = 30, end_bearing = 800,
          bottom_depth = None\<rparr>] 1 1 [0] 1 False False)
      = [\<lparr>name = ''Unit 1'', top_depth = 0, skin_friction = 10, end_bearing = 500,
          bottom_depth = Some PInf\<rparr>,
         \<lparr>name = ''Unit 2'', top_depth = 4, skin_friction = 30, end_bearing = 800,
          bottom_depth = None\<rparr>]"
    using a by (simp add: snd_calculate_capacity final_store_def sort_units_def)
  show ?thesis
    using l a s capacity_writes_only_bottom_depth[OF l, of 1 1 1 False False]
    by blast
qed

end
